theory Spec2Isabelle
  imports Complex_Main
begin

section \<open>The star-catching engines\<close>

text \<open>
  The repository holds two versions of the class \<open>GameEngine\<close>:
  \<^item> the camera-only engine of \<open>index.tsx\<close> (definitions with the suffix \<open>_cam\<close>), and
  \<^item> the engine with the touch fallback of \<open>part_001\<close> (suffix \<open>_fb\<close>).

  JavaScript numbers are modelled as follows: timestamps, scores, pixel bytes and grid
  indices are integers (they stay far below \<open>2^53\<close>, where doubles are exact). The scale
  and the size of a star, which the callback accumulates frame after frame, are doubles:
  real numbers, every sum rounded to the nearest double as IEEE 754 prescribes. Positions,
  random draws and the distance of the pointer test are real numbers, an idealisation of
  the doubles of the source.
  Everything the engines read from the platform in one frame (clock, random draws, the
  pixels of the motion canvas, the video's ready state) is an explicit input.
\<close>

subsection \<open>Data\<close>

text \<open>The interface \<open>Star\<close>. The fields \<open>id\<close>, \<open>x\<close>, \<open>y\<close>, \<open>size\<close> and \<open>scale\<close>
  carry the prefix \<open>star_\<close>.\<close>

record Star =
  star_id :: int
  star_x :: real
  star_y :: real
  star_size :: real
  hue :: real
  active :: bool
  collected :: bool
  star_scale :: real

text \<open>The object \<open>{ motionMap, width, height }\<close> that \<open>detectMotion\<close> returns; the
  \<open>Uint8Array\<close> is a list of bytes.\<close>

record MotionSample =
  motionMap :: "nat list"
  width :: nat
  height :: nat

text \<open>The mutable fields of the class of \<open>index.tsx\<close>; the class of \<open>part_001\<close> adds
  three more. The DOM elements and the audio context carry no game state.\<close>

record GameEngine =
  prevFrame :: "nat list option"
  score :: int
  stars :: "Star list"
  lastStarTime :: int
  isPlaying :: bool

record FallbackEngine = GameEngine +
  cameraActive :: bool
  lastTouchX :: real
  lastTouchY :: real

text \<open>What one run of \<open>gameLoop\<close> reads from the platform: \<open>Date.now()\<close>,
  \<open>video.readyState\<close>, the size of the motion canvas, the bytes \<open>getImageData\<close> yields
  after \<open>drawImage\<close>, and the four \<open>Math.random()\<close> draws of \<open>spawnStar\<close> in the order
  of the source.\<close>

record FrameIn =
  now :: int
  readyState :: nat
  canvasWidth :: nat
  canvasHeight :: nat
  imageData :: "nat list"
  rand_x :: real
  rand_y :: real
  rand_size :: real
  rand_hue :: real

datatype error = IndexSizeError

subsection \<open>Constants\<close>

text \<open>The sensitivity of the two files. \<open>index.tsx\<close> also declares
  \<open>MOTION_RATIO_TRIGGER = 0.1\<close> and never reads it.\<close>

definition GESTURE_THRESHOLD_cam :: int where
  "GESTURE_THRESHOLD_cam = 40"

definition GESTURE_THRESHOLD_fb :: int where
  "GESTURE_THRESHOLD_fb = 35"

subsection \<open>Arithmetic on doubles\<close>

text \<open>A JavaScript number is an IEEE 754 double: a sign, a significand of 53 bits and a
  binary exponent. A sum is the exact sum rounded to the nearest double, to the one with
  the even significand when two are equally near, and a decimal literal of the source is
  the double nearest to it. The exponent of a positive real is found by halving or
  doubling it into \<open>[1, 2)\<close>; the doubles next to \<open>a\<close> are \<open>ulp a\<close> apart, and \<open>2^-1074\<close>
  apart below the smallest normal number \<open>2^-1022\<close>. Sums beyond the largest double
  (about \<open>1.8 * 10^308\<close>), which would be infinite, do not occur here.\<close>

fun expoF :: "nat \<Rightarrow> real \<Rightarrow> int" where
  "expoF 0 x = 0"
| "expoF (Suc n) x =
     (if 2 \<le> x then expoF n (x / 2) + 1
      else if x < 1 then expoF n (x * 2) - 1
      else 0)"

definition expo :: "real \<Rightarrow> int" where
  "expo x = expoF 1100 x"

definition pow2 :: "int \<Rightarrow> real" where
  "pow2 k = (if 0 \<le> k then 2 ^ nat k else 1 / 2 ^ nat (- k))"

definition ulp :: "real \<Rightarrow> real" where
  "ulp a = pow2 (max (expo a) (- 1022) - 52)"

definition nearestEven :: "int \<Rightarrow> real \<Rightarrow> int" where
  "nearestEven f q =
     (if q - real_of_int f < 1 / 2 then f
      else if 1 / 2 < q - real_of_int f then f + 1
      else if even f then f else f + 1)"

definition rne :: "real \<Rightarrow> int" where
  "rne q = nearestEven \<lfloor>q\<rfloor> q"

definition roundAt :: "real \<Rightarrow> real \<Rightarrow> real" where
  "roundAt u a = real_of_int (rne (a / u)) * u"

text \<open>The double nearest to a real number, and the sum of two doubles.\<close>

definition fround :: "real \<Rightarrow> real" where
  "fround x = (if x = 0 then 0 else sgn x * roundAt (ulp \<bar>x\<bar>) \<bar>x\<bar>)"

definition dadd :: "real \<Rightarrow> real \<Rightarrow> real" where
  "dadd a b = fround (a + b)"

subsection \<open>Frame differencing\<close>

text \<open>A read of a typed array: \<open>undefined\<close> out of range, which the subtraction turns
  into \<open>NaN\<close>; \<open>None\<close> stands for \<open>NaN\<close>.\<close>

definition channelDiff :: "nat list \<Rightarrow> nat list \<Rightarrow> nat \<Rightarrow> int option" where
  "channelDiff cur prev i =
     (if i < length cur \<and> i < length prev
      then Some \<bar>int (cur ! i) - int (prev ! i)\<bar> else None)"

definition pixelDiff :: "nat list \<Rightarrow> nat list \<Rightarrow> nat \<Rightarrow> int option" where
  "pixelDiff cur prev i =
     (case channelDiff cur prev i of None \<Rightarrow> None
      | Some r \<Rightarrow> (case channelDiff cur prev (i + 1) of None \<Rightarrow> None
      | Some g \<Rightarrow> (case channelDiff cur prev (i + 2) of None \<Rightarrow> None
      | Some b \<Rightarrow> Some (r + g + b))))"

text \<open>\<open>diff > threshold\<close>; a comparison with \<open>NaN\<close> is false.\<close>

definition exceeds :: "int option \<Rightarrow> int \<Rightarrow> bool" where
  "exceeds d t = (case d of None \<Rightarrow> False | Some v \<Rightarrow> v > t)"

text \<open>The loop \<open>for (let i = 0; i < currentFrame.length; i += 4)\<close> of \<open>detectMotion\<close>,
  from index \<open>i\<close> on. A write past the end of a typed array is ignored, as is
  \<open>list_update\<close> past the end of a list.\<close>

function diffLoop :: "int \<Rightarrow> nat list \<Rightarrow> nat list \<Rightarrow> nat \<Rightarrow> nat list \<Rightarrow> nat list" where
  "diffLoop t cur prev i m =
     (if i < length cur
      then diffLoop t cur prev (i + 4)
             (if exceeds (pixelDiff cur prev i) t then m[i div 4 := 1] else m)
      else m)"
  by pat_completeness auto
termination
  by (relation "measure (\<lambda>(t, cur, prev, i, m). length cur - i)") auto

text \<open>The mask of one call: \<open>new Uint8Array(width * height)\<close>, filled by the loop when
  there is a previous frame.\<close>

definition buildMotionMap :: "int \<Rightarrow> nat list option \<Rightarrow> nat list \<Rightarrow> nat \<Rightarrow> nat \<Rightarrow> nat list" where
  "buildMotionMap t prev cur w h =
     (case prev of
        None \<Rightarrow> replicate (w * h) 0
      | Some p \<Rightarrow> diffLoop t cur p 0 (replicate (w * h) 0))"

text \<open>\<open>getImageData(0, 0, width, height)\<close> throws \<open>IndexSizeError\<close> on an empty
  rectangle.\<close>

definition getImageData :: "FrameIn \<Rightarrow> error + nat list" where
  "getImageData f =
     (if canvasWidth f = 0 \<or> canvasHeight f = 0 then Inl IndexSizeError
      else Inr (imageData f))"

definition emptySample :: MotionSample where
  "emptySample = \<lparr>motionMap = [], width = 0, height = 0\<rparr>"

definition detectMotion_cam :: "GameEngine \<Rightarrow> FrameIn \<Rightarrow> error + (MotionSample \<times> GameEngine)" where
  "detectMotion_cam e f =
     (case getImageData f of
        Inl err \<Rightarrow> Inl err
      | Inr currentFrame \<Rightarrow>
          Inr (\<lparr>motionMap = buildMotionMap GESTURE_THRESHOLD_cam (prevFrame e) currentFrame
                               (canvasWidth f) (canvasHeight f),
                width = canvasWidth f, height = canvasHeight f\<rparr>,
               e\<lparr>prevFrame := Some currentFrame\<rparr>))"

definition detectMotion_fb :: "FallbackEngine \<Rightarrow> FrameIn \<Rightarrow> error + (MotionSample \<times> FallbackEngine)" where
  "detectMotion_fb e f =
     (if \<not> cameraActive e \<or> readyState f < 2 then Inr (emptySample, e)
      else (case getImageData f of
        Inl err \<Rightarrow> Inl err
      | Inr currentFrame \<Rightarrow>
          Inr (\<lparr>motionMap = buildMotionMap GESTURE_THRESHOLD_fb (prevFrame e) currentFrame
                               (canvasWidth f) (canvasHeight f),
                width = canvasWidth f, height = canvasHeight f\<rparr>,
               e\<lparr>prevFrame := Some currentFrame\<rparr>)))"

text \<open>The cells a mask flags.\<close>

definition flaggedCells :: "nat list \<Rightarrow> nat set" where
  "flaggedCells m = {k. k < length m \<and> m ! k \<noteq> 0}"

subsection \<open>Spawning\<close>

definition spawnStar_cam :: "GameEngine \<Rightarrow> FrameIn \<Rightarrow> GameEngine" where
  "spawnStar_cam e f =
     (if now f - lastStarTime e > 1500 \<and> length (filter active (stars e)) < 5
      then e\<lparr>stars := stars e @
                 [\<lparr>star_id = now f,
                   star_x = 0.15 + rand_x f * 0.7,
                   star_y = 0.2 + rand_y f * 0.6,
                   star_size = 40 + rand_size f * 30,
                   hue = rand_hue f * 360,
                   active = True, collected = False, star_scale = 0\<rparr>],
             lastStarTime := now f\<rparr>
      else e)"

definition spawnStar_fb :: "FallbackEngine \<Rightarrow> FrameIn \<Rightarrow> FallbackEngine" where
  "spawnStar_fb e f =
     (if now f - lastStarTime e > 1000 \<and> length (filter active (stars e)) < 6
      then e\<lparr>stars := stars e @
                 [\<lparr>star_id = now f,
                   star_x = 0.15 + rand_x f * 0.7,
                   star_y = 0.2 + rand_y f * 0.6,
                   star_size = 30 + rand_size f * 30,
                   hue = rand_hue f * 360,
                   active = True, collected = False, star_scale = 0\<rparr>],
             lastStarTime := now f\<rparr>
      else e)"

subsection \<open>Hit tests\<close>

text \<open>The truth value of \<open>motionMap[i]\<close>: \<open>undefined\<close> out of range, which is falsy.\<close>

definition truthy :: "nat list \<Rightarrow> nat \<Rightarrow> bool" where
  "truthy m i = (i < length m \<and> m ! i \<noteq> 0)"

text \<open>The test \<open>gx >= 0 && gx < mw && gy >= 0 && gy < mh && motionMap[gy * mw + gx]\<close>.\<close>

definition cellHit :: "MotionSample \<Rightarrow> int \<Rightarrow> int \<Rightarrow> bool" where
  "cellHit ms gx gy =
     (gx \<ge> 0 \<and> gx < int (width ms) \<and> gy \<ge> 0 \<and> gy < int (height ms) \<and>
      truthy (motionMap ms) (nat (gy * int (width ms) + gx)))"

text \<open>The two nested loops \<open>for (dy = -r; dy <= r; dy++) for (dx = -r; dx <= r; dx++)\<close>
  that count the flagged cells around \<open>(gridX, gridY)\<close>.\<close>

definition countHits :: "int \<Rightarrow> MotionSample \<Rightarrow> int \<Rightarrow> int \<Rightarrow> nat" where
  "countHits r ms gridX gridY =
     foldl (\<lambda>hits dy.
        foldl (\<lambda>hits dx. if cellHit ms (gridX + dx) (gridY + dy) then hits + 1 else hits)
          hits [- r..r])
       0 [- r..r]"

definition gridX :: "MotionSample \<Rightarrow> Star \<Rightarrow> int" where
  "gridX ms star = \<lfloor>star_x star * real (width ms)\<rfloor>"

definition gridY :: "MotionSample \<Rightarrow> Star \<Rightarrow> int" where
  "gridY ms star = \<lfloor>star_y star * real (height ms)\<rfloor>"

text \<open>\<open>index.tsx\<close>: \<open>motionHits\<close> with \<open>radius = 3\<close>.\<close>

definition motionHits_cam :: "MotionSample \<Rightarrow> Star \<Rightarrow> nat" where
  "motionHits_cam ms star = countHits 3 ms (gridX ms star) (gridY ms star)"

text \<open>\<open>part_001\<close>, block 1: the value of \<open>isHit\<close> after the touch and cursor test.\<close>

definition pointerCheck :: "FallbackEngine \<Rightarrow> Star \<Rightarrow> bool" where
  "pointerCheck e star =
     (if lastTouchX e \<noteq> - 1
      then (let dx = star_x star - lastTouchX e;
                dy = star_y star - lastTouchY e;
                dist = sqrt (dx * dx + dy * dy)
            in dist < 0.15)
      else False)"

text \<open>\<open>part_001\<close>, block 2: the value of \<open>isHit\<close> after the camera test, which is guarded
  by \<open>!isHit && this.cameraActive && mw > 0\<close> and uses \<open>r = 2\<close>.\<close>

definition cameraCheck :: "MotionSample \<Rightarrow> FallbackEngine \<Rightarrow> Star \<Rightarrow> bool \<Rightarrow> bool" where
  "cameraCheck ms e star isHit =
     (if \<not> isHit \<and> cameraActive e \<and> width ms > 0
      then (if countHits 2 ms (gridX ms star) (gridY ms star) > 4 then True else isHit)
      else isHit)"

subsection \<open>The callback of \<open>this.stars.filter\<close>\<close>

text \<open>The callback mutates the star and the engine; it returns \<open>false\<close> for a star that
  was inactive and \<open>star.active\<close> otherwise, which in both cases is the \<open>active\<close> flag
  of the star it leaves behind.\<close>

definition visitStar_cam :: "MotionSample \<Rightarrow> GameEngine \<Rightarrow> Star \<Rightarrow> Star \<times> GameEngine" where
  "visitStar_cam ms e star =
     (if \<not> active star then (star, e)
      else
        let s1 = (if \<not> collected star \<and> star_scale star < 1
                  then star\<lparr>star_scale := dadd (star_scale star) (fround 0.05)\<rparr> else star);
            motionHits = motionHits_cam ms s1;
            hit = (int motionHits > (3 * 2 + 1) * 2 \<and> \<not> collected s1);
            s2 = (if hit then s1\<lparr>collected := True\<rparr> else s1);
            e2 = (if hit then e\<lparr>score := score e + 10\<rparr> else e);
            s3 = (if collected s2
                  then (let s = s2\<lparr>star_scale := dadd (star_scale s2) (fround 0.2),
                                     star_size := dadd (star_size s2) 5\<rparr>
                        in if star_scale s > 3 then s\<lparr>active := False\<rparr> else s)
                  else s2)
        in (s3, e2))"

definition visitStar_fb :: "MotionSample \<Rightarrow> FallbackEngine \<Rightarrow> Star \<Rightarrow> Star \<times> FallbackEngine" where
  "visitStar_fb ms e star =
     (if \<not> active star then (star, e)
      else
        let s1 = (if \<not> collected star \<and> star_scale star < 1
                  then star\<lparr>star_scale := dadd (star_scale star) (fround 0.1)\<rparr> else star);
            isHit = cameraCheck ms e s1 (pointerCheck e s1);
            hit = (isHit \<and> \<not> collected s1);
            s2 = (if hit then s1\<lparr>collected := True\<rparr> else s1);
            e2 = (if hit then e\<lparr>score := score e + 10, lastTouchX := - 1, lastTouchY := - 1\<rparr>
                  else e);
            s3 = (if collected s2
                  then (let s = s2\<lparr>star_scale := dadd (star_scale s2) (fround 0.2)\<rparr>
                        in if star_scale s > 4 then s\<lparr>active := False\<rparr> else s)
                  else s2)
        in (s3, e2))"

text \<open>The callback applied to the stars in order, the engine threaded through; the
  result lists every star as the callback left it. \<open>filter\<close> keeps those whose call
  returned true.\<close>

fun visitAll :: "('e \<Rightarrow> Star \<Rightarrow> Star \<times> 'e) \<Rightarrow> 'e \<Rightarrow> Star list \<Rightarrow> Star list \<times> 'e" where
  "visitAll cb e [] = ([], e)"
| "visitAll cb e (star # rest) =
     (case cb e star of (star', e1) \<Rightarrow>
        (case visitAll cb e1 rest of (rest', e2) \<Rightarrow> (star' # rest', e2)))"

subsection \<open>The frame loop\<close>

definition gameLoop_cam :: "GameEngine \<Rightarrow> FrameIn \<Rightarrow> error + GameEngine" where
  "gameLoop_cam e f =
     (if \<not> isPlaying e then Inr e
      else (case detectMotion_cam e f of
        Inl err \<Rightarrow> Inl err
      | Inr (ms, e1) \<Rightarrow>
          (let e2 = spawnStar_cam e1 f
           in case visitAll (visitStar_cam ms) e2 (stars e2) of
                (visited, e3) \<Rightarrow> Inr (e3\<lparr>stars := filter active visited\<rparr>))))"

definition gameLoop_fb :: "FallbackEngine \<Rightarrow> FrameIn \<Rightarrow> error + FallbackEngine" where
  "gameLoop_fb e f =
     (if \<not> isPlaying e then Inr e
      else (case detectMotion_fb e f of
        Inl err \<Rightarrow> Inl err
      | Inr (ms, e1) \<Rightarrow>
          (let e2 = spawnStar_fb e1 f
           in case visitAll (visitStar_fb ms) e2 (stars e2) of
                (visited, e3) \<Rightarrow> Inr (e3\<lparr>stars := filter active visited\<rparr>))))"

subsection \<open>Start, input events and initialisation\<close>

text \<open>The assignments at the head of \<open>start\<close>.\<close>

definition started :: "'a GameEngine_scheme \<Rightarrow> 'a GameEngine_scheme" where
  "started e = e\<lparr>isPlaying := True, score := 0, stars := []\<rparr>"

text \<open>\<open>start\<close> ends with a call of \<open>gameLoop\<close>. An exception of that call leaves the
  handler with the assignments done so far: the engine as \<open>started\<close> left it.\<close>

definition start_cam :: "GameEngine \<Rightarrow> FrameIn \<Rightarrow> GameEngine" where
  "start_cam e f =
     (let e0 = started e
      in case gameLoop_cam e0 f of Inl err \<Rightarrow> e0 | Inr e' \<Rightarrow> e')"

definition start_fb :: "FallbackEngine \<Rightarrow> FrameIn \<Rightarrow> FallbackEngine" where
  "start_fb e f =
     (if isPlaying e then e
      else (let e0 = started e
            in case gameLoop_fb e0 f of Inl err \<Rightarrow> e0 | Inr e' \<Rightarrow> e'))"

text \<open>The callback given to \<open>requestAnimationFrame\<close>. \<open>gameLoop\<close> can only throw in
  \<open>detectMotion\<close>, before it has changed anything.\<close>

definition onFrame_cam :: "GameEngine \<Rightarrow> FrameIn \<Rightarrow> GameEngine" where
  "onFrame_cam e f = (case gameLoop_cam e f of Inl err \<Rightarrow> e | Inr e' \<Rightarrow> e')"

definition onFrame_fb :: "FallbackEngine \<Rightarrow> FrameIn \<Rightarrow> FallbackEngine" where
  "onFrame_fb e f = (case gameLoop_fb e f of Inl err \<Rightarrow> e | Inr e' \<Rightarrow> e')"

text \<open>\<open>handleInteraction\<close> of \<open>part_001\<close>; its arguments are the quotients
  \<open>clientX / window.innerWidth\<close> and \<open>clientY / window.innerHeight\<close>.\<close>

definition handleInteraction :: "FallbackEngine \<Rightarrow> real \<Rightarrow> real \<Rightarrow> FallbackEngine" where
  "handleInteraction e px py =
     (if \<not> isPlaying e then e else e\<lparr>lastTouchX := px, lastTouchY := py\<rparr>)"

text \<open>What happens to an engine after its construction: a click on the start button, a
  display refresh, a touch or mouse event. The engine of \<open>index.tsx\<close> has no listener for
  the last, and it listens for the click only once its camera request has succeeded; here
  a click may come at any time, which gives more runs than the page allows. A frame event
  stands for one call of the callback of \<open>requestAnimationFrame\<close>; after a call that threw
  the page schedules no further one, while here further frames may follow.\<close>

datatype Event = Click FrameIn | Frame FrameIn | Pointer real real

fun step_cam :: "GameEngine \<Rightarrow> Event \<Rightarrow> GameEngine" where
  "step_cam e (Click f) = start_cam e f"
| "step_cam e (Frame f) = onFrame_cam e f"
| "step_cam e (Pointer px py) = e"

fun step_fb :: "FallbackEngine \<Rightarrow> Event \<Rightarrow> FallbackEngine" where
  "step_fb e (Click f) = start_fb e f"
| "step_fb e (Frame f) = onFrame_fb e f"
| "step_fb e (Pointer px py) = handleInteraction e px py"

text \<open>The field initialisers of the two classes.\<close>

definition newEngine_cam :: GameEngine where
  "newEngine_cam =
     \<lparr>prevFrame = None, score = 0, stars = [], lastStarTime = 0, isPlaying = False\<rparr>"

definition newEngine_fb :: FallbackEngine where
  "newEngine_fb =
     \<lparr>prevFrame = None, score = 0, stars = [], lastStarTime = 0, isPlaying = False,
      cameraActive = False, lastTouchX = - 1, lastTouchY = - 1\<rparr>"

text \<open>What \<open>init\<close> of \<open>part_001\<close> meets: whether \<open>navigator.mediaDevices.getUserMedia\<close>
  exists, and how the request with \<open>facingMode\<close>, the request without constraints and
  \<open>video.play()\<close> settle: \<open>None\<close> when the promise resolves, \<open>Some name\<close> when it
  rejects with an error of that name.\<close>

record Platform =
  hasGetUserMedia :: bool
  firstRequest :: "string option"
  secondRequest :: "string option"
  playRequest :: "string option"

datatype FallbackReason = Unsupported | NoCameraFound | Restricted

text \<open>\<open>setFallbackMode(reason)\<close>; the reason only reaches the page.\<close>

definition setFallbackMode :: "FallbackReason \<Rightarrow> FallbackEngine \<Rightarrow> FallbackEngine" where
  "setFallbackMode reason e = e\<lparr>cameraActive := False\<rparr>"

text \<open>The \<open>try\<close> block of \<open>init\<close>: \<open>Inl name\<close> is the exception that reaches \<open>catch\<close>.\<close>

definition tryCamera :: "Platform \<Rightarrow> FallbackEngine \<Rightarrow> string + FallbackEngine" where
  "tryCamera p e =
     (case (case firstRequest p of None \<Rightarrow> None | Some name \<Rightarrow> secondRequest p) of
        Some name \<Rightarrow> Inl name
      | None \<Rightarrow> (case playRequest p of
                   Some name \<Rightarrow> Inl name
                 | None \<Rightarrow> Inr (e\<lparr>cameraActive := True\<rparr>)))"

definition init_fb :: "Platform \<Rightarrow> FallbackEngine \<Rightarrow> FallbackEngine" where
  "init_fb p e =
     (if \<not> hasGetUserMedia p then setFallbackMode Unsupported e
      else (case tryCamera p e of
              Inl name \<Rightarrow>
                setFallbackMode (if name = ''NotFoundError'' then NoCameraFound else Restricted) e
            | Inr e' \<Rightarrow> e'))"

text \<open>A session of the engine of \<open>part_001\<close>: the module constructs the engine, calls
  \<open>init\<close> once, and events follow. The engine of \<open>index.tsx\<close> keeps nothing of its
  \<open>init\<close>.\<close>

definition session_fb :: "Platform \<Rightarrow> Event list \<Rightarrow> FallbackEngine" where
  "session_fb p evs = foldl step_fb (init_fb p newEngine_fb) evs"

definition session_cam :: "Event list \<Rightarrow> GameEngine" where
  "session_cam evs = foldl step_cam newEngine_cam evs"

section \<open>Notions the properties are stated with\<close>

subsection \<open>Neighbourhoods of the motion grid\<close>

text \<open>The square of cells at distance at most \<open>r\<close> from \<open>(cx, cy)\<close>, and those of its
  cells that lie in the grid of the mask and are flagged there.\<close>

definition neighbourhood :: "int \<Rightarrow> int \<Rightarrow> int \<Rightarrow> (int \<times> int) set" where
  "neighbourhood r cx cy = {cx - r..cx + r} \<times> {cy - r..cy + r}"

definition flaggedAround :: "int \<Rightarrow> MotionSample \<Rightarrow> int \<Rightarrow> int \<Rightarrow> (int \<times> int) set" where
  "flaggedAround r ms cx cy =
     {(gx, gy). (gx, gy) \<in> neighbourhood r cx cy \<and>
        0 \<le> gx \<and> gx < int (width ms) \<and> 0 \<le> gy \<and> gy < int (height ms) \<and>
        nat (gy * int (width ms) + gx) \<in> flaggedCells (motionMap ms)}"

subsection \<open>Sample inputs\<close>

text \<open>A grid of five by five cells whose first row moved, an engine of \<open>part_001\<close> that
  plays with the camera on and no pointer recorded, and a fresh star in the middle of the
  screen.\<close>

definition rowMask :: MotionSample where
  "rowMask = \<lparr>motionMap = [1, 1, 1, 1, 1,  0, 0, 0, 0, 0,  0, 0, 0, 0, 0,
                           0, 0, 0, 0, 0,  0, 0, 0, 0, 0],
              width = 5, height = 5\<rparr>"

definition playingWithCamera :: FallbackEngine where
  "playingWithCamera = newEngine_fb\<lparr>isPlaying := True, cameraActive := True\<rparr>"

definition playing_cam :: GameEngine where
  "playing_cam = newEngine_cam\<lparr>isPlaying := True\<rparr>"

definition centreStar :: Star where
  "centreStar = \<lparr>star_id = 2000, star_x = 0.5, star_y = 0.5, star_size = 30, hue = 0,
                  active = True, collected = False, star_scale = 0\<rparr>"

text \<open>The same engine with a pointer recorded at \<open>(0.5, 0.5)\<close>, and a grown star at
  \<open>(0.52, 0.51)\<close>.\<close>

definition touched :: FallbackEngine where
  "touched = playingWithCamera\<lparr>lastTouchX := 0.5, lastTouchY := 0.5\<rparr>"

definition nearStar :: Star where
  "nearStar = \<lparr>star_id = 3000, star_x = 0.52, star_y = 0.51, star_size = 30, hue = 0,
                active = True, collected = False, star_scale = 1\<rparr>"

text \<open>The same engine with a pointer recorded in the corner \<open>(0, 0)\<close>, out of reach of the
  star in the middle.\<close>

definition farTouched :: FallbackEngine where
  "farTouched = playingWithCamera\<lparr>lastTouchX := 0, lastTouchY := 0\<rparr>"

text \<open>A frame read while the video is not ready, on a motion canvas of two cells; an
  engine of \<open>part_001\<close> that plays without a camera; a platform with no camera device.\<close>

definition blankFrame :: FrameIn where
  "blankFrame = \<lparr>now = 5000, readyState = 0, canvasWidth = 2, canvasHeight = 1,
                  imageData = [0, 0, 0, 0,  0, 0, 0, 0],
                  rand_x = 0.5, rand_y = 0.5, rand_size = 0.5, rand_hue = 0.5\<rparr>"

definition playingFallback :: FallbackEngine where
  "playingFallback = newEngine_fb\<lparr>isPlaying := True\<rparr>"

definition noCamera :: Platform where
  "noCamera = \<lparr>hasGetUserMedia = True, firstRequest = Some ''NotFoundError'',
                secondRequest = Some ''NotFoundError'', playRequest = None\<rparr>"

subsection \<open>Camera acquisition\<close>

text \<open>The camera is not acquired: the API is missing, or both requests are rejected (no
  device, permission denied).\<close>

definition acquisitionFails :: "Platform \<Rightarrow> bool" where
  "acquisitionFails p =
     (\<not> hasGetUserMedia p \<or> (firstRequest p \<noteq> None \<and> secondRequest p \<noteq> None))"

subsection \<open>The part of \<open>gameLoop\<close> after \<open>spawnStar\<close>\<close>

text \<open>The engine after \<open>this.stars = this.stars.filter(...)\<close>, from the engine before it.\<close>

definition visitStars_cam :: "MotionSample \<Rightarrow> GameEngine \<Rightarrow> GameEngine" where
  "visitStars_cam ms e2 =
     (snd (visitAll (visitStar_cam ms) e2 (stars e2)))
       \<lparr>stars := filter active (fst (visitAll (visitStar_cam ms) e2 (stars e2)))\<rparr>"

definition visitStars_fb :: "MotionSample \<Rightarrow> FallbackEngine \<Rightarrow> FallbackEngine" where
  "visitStars_fb ms e2 =
     (snd (visitAll (visitStar_fb ms) e2 (stars e2)))
       \<lparr>stars := filter active (fst (visitAll (visitStar_fb ms) e2 (stars e2)))\<rparr>"

subsection \<open>Counting stars\<close>

text \<open>The stars that are alive and not yet collected: the states \<open>Spawning\<close> and
  \<open>Active\<close> of the specification.\<close>

definition aliveCount :: "'a GameEngine_scheme \<Rightarrow> nat" where
  "aliveCount e = length (filter (\<lambda>s. active s \<and> \<not> collected s) (stars e))"

subsection \<open>The log of spawned stars\<close>

text \<open>The stars a call of \<open>spawnStar\<close> has pushed: what the array holds past its old
  length. From that, the stars pushed during one call of \<open>gameLoop\<close>, during one event,
  and during a sequence of events, in the order of their creation. The collection forgets
  the stars it drops; the log does not.\<close>

definition spawned :: "'a GameEngine_scheme \<Rightarrow> 'a GameEngine_scheme \<Rightarrow> Star list" where
  "spawned before after = drop (length (stars before)) (stars after)"

definition pushedIn_cam :: "GameEngine \<Rightarrow> FrameIn \<Rightarrow> Star list" where
  "pushedIn_cam e f =
     (if \<not> isPlaying e then []
      else (case detectMotion_cam e f of
              Inl err \<Rightarrow> []
            | Inr (ms, e1) \<Rightarrow> spawned e1 (spawnStar_cam e1 f)))"

definition pushedIn_fb :: "FallbackEngine \<Rightarrow> FrameIn \<Rightarrow> Star list" where
  "pushedIn_fb e f =
     (if \<not> isPlaying e then []
      else (case detectMotion_fb e f of
              Inl err \<Rightarrow> []
            | Inr (ms, e1) \<Rightarrow> spawned e1 (spawnStar_fb e1 f)))"

fun spawnedBy_cam :: "GameEngine \<Rightarrow> Event \<Rightarrow> Star list" where
  "spawnedBy_cam e (Click f) = pushedIn_cam (started e) f"
| "spawnedBy_cam e (Frame f) = pushedIn_cam e f"
| "spawnedBy_cam e (Pointer px py) = []"

fun spawnedBy_fb :: "FallbackEngine \<Rightarrow> Event \<Rightarrow> Star list" where
  "spawnedBy_fb e (Click f) = (if isPlaying e then [] else pushedIn_fb (started e) f)"
| "spawnedBy_fb e (Frame f) = pushedIn_fb e f"
| "spawnedBy_fb e (Pointer px py) = []"

fun spawnLog_cam :: "GameEngine \<Rightarrow> Event list \<Rightarrow> Star list" where
  "spawnLog_cam e [] = []"
| "spawnLog_cam e (ev # evs) = spawnedBy_cam e ev @ spawnLog_cam (step_cam e ev) evs"

fun spawnLog_fb :: "FallbackEngine \<Rightarrow> Event list \<Rightarrow> Star list" where
  "spawnLog_fb e [] = []"
| "spawnLog_fb e (ev # evs) = spawnedBy_fb e ev @ spawnLog_fb (step_fb e ev) evs"

text \<open>A later frame, two seconds after the blank one.\<close>

definition laterFrame :: FrameIn where
  "laterFrame = \<lparr>now = 7000, readyState = 4, canvasWidth = 2, canvasHeight = 1,
                  imageData = [9, 9, 9, 255,  200, 0, 0, 255],
                  rand_x = 0, rand_y = 0, rand_size = 0, rand_hue = 0\<rparr>"

subsection \<open>The tally of collections\<close>

text \<open>The stars that went from not collected to collected during one pass of the
  callback over the array: the pairs of a star before and after its call. From that, the
  collections of one call of \<open>gameLoop\<close>, and the collections since the session started:
  the count starts again whenever \<open>start\<close> resets the score, which \<open>index.tsx\<close> does on
  every click and \<open>part_001\<close> only while the game is not playing.\<close>

definition newlyCollected :: "Star list \<Rightarrow> Star list \<Rightarrow> nat" where
  "newlyCollected before after =
     length (filter (\<lambda>(s, s'). \<not> collected s \<and> collected s') (zip before after))"

definition collectedIn_cam :: "GameEngine \<Rightarrow> FrameIn \<Rightarrow> nat" where
  "collectedIn_cam e f =
     (if \<not> isPlaying e then 0
      else (case detectMotion_cam e f of
              Inl err \<Rightarrow> 0
            | Inr (ms, e1) \<Rightarrow>
                (let e2 = spawnStar_cam e1 f
                 in newlyCollected (stars e2) (fst (visitAll (visitStar_cam ms) e2 (stars e2))))))"

definition collectedIn_fb :: "FallbackEngine \<Rightarrow> FrameIn \<Rightarrow> nat" where
  "collectedIn_fb e f =
     (if \<not> isPlaying e then 0
      else (case detectMotion_fb e f of
              Inl err \<Rightarrow> 0
            | Inr (ms, e1) \<Rightarrow>
                (let e2 = spawnStar_fb e1 f
                 in newlyCollected (stars e2) (fst (visitAll (visitStar_fb ms) e2 (stars e2))))))"

fun tally_cam :: "nat \<Rightarrow> GameEngine \<Rightarrow> Event list \<Rightarrow> nat" where
  "tally_cam n e [] = n"
| "tally_cam n e (Click f # evs) = tally_cam (collectedIn_cam (started e) f) (start_cam e f) evs"
| "tally_cam n e (Frame f # evs) = tally_cam (n + collectedIn_cam e f) (onFrame_cam e f) evs"
| "tally_cam n e (Pointer px py # evs) = tally_cam n e evs"

fun tally_fb :: "nat \<Rightarrow> FallbackEngine \<Rightarrow> Event list \<Rightarrow> nat" where
  "tally_fb n e [] = n"
| "tally_fb n e (Click f # evs) =
     tally_fb (if isPlaying e then n else collectedIn_fb (started e) f) (start_fb e f) evs"
| "tally_fb n e (Frame f # evs) = tally_fb (n + collectedIn_fb e f) (onFrame_fb e f) evs"
| "tally_fb n e (Pointer px py # evs) = tally_fb n (handleInteraction e px py) evs"

text \<open>Two frames on a motion canvas of four by four cells, 16 ms apart: every pixel
  changes from black to a bright red.\<close>

definition calmFrame :: FrameIn where
  "calmFrame = \<lparr>now = 5000, readyState = 4, canvasWidth = 4, canvasHeight = 4,
                 imageData = replicate 64 0,
                 rand_x = 0.5, rand_y = 0.5, rand_size = 0.5, rand_hue = 0.5\<rparr>"

definition movedFrame :: FrameIn where
  "movedFrame = \<lparr>now = 5016, readyState = 4, canvasWidth = 4, canvasHeight = 4,
                  imageData = replicate 64 200,
                  rand_x = 0.5, rand_y = 0.5, rand_size = 0.5, rand_hue = 0.5\<rparr>"

subsection \<open>The life of a collected star\<close>

text \<open>The identifiers in the collection increase along the array, none is later than
  the last spawn, and every star in it is active.\<close>

definition wellFormed :: "'a GameEngine_scheme \<Rightarrow> bool" where
  "wellFormed e =
     (sorted_wrt (<) (map star_id (stars e)) \<and>
      (\<forall>s \<in> set (stars e). star_id s \<le> lastStarTime e \<and> active s))"

text \<open>A collected star one frame later, in \<open>index.tsx\<close> and in \<open>part_001\<close>.\<close>

definition burst_cam :: "Star \<Rightarrow> Star" where
  "burst_cam star = star\<lparr>star_scale := dadd (star_scale star) (fround 0.2),
                         star_size := dadd (star_size star) 5\<rparr>"

definition burst_fb :: "Star \<Rightarrow> Star" where
  "burst_fb star = star\<lparr>star_scale := dadd (star_scale star) (fround 0.2)\<rparr>"

text \<open>A collected star after \<open>n\<close> frames of growth, and whether it outlives them: in none
  of the \<open>n\<close> frames has its scale passed the ceiling.\<close>

fun grown :: "(Star \<Rightarrow> Star) \<Rightarrow> nat \<Rightarrow> Star \<Rightarrow> Star" where
  "grown burst 0 star = star"
| "grown burst (Suc n) star = grown burst n (burst star)"

fun survives :: "(Star \<Rightarrow> Star) \<Rightarrow> real \<Rightarrow> nat \<Rightarrow> Star \<Rightarrow> bool" where
  "survives burst limit 0 star = True"
| "survives burst limit (Suc n) star =
     (\<not> limit < star_scale (burst star) \<and> survives burst limit n (burst star))"

text \<open>The drawing code at the end of the callback, from \<open>const screenX\<close> to
  \<open>this.gameCtx.restore()\<close>, runs in every call that passes the first test, after the
  updates of the scale and of the flags and before \<open>return star.active\<close>: it draws the star
  as the callback leaves it. The stars drawn during one pass of the callback over the
  array, in the order of the calls; from that, the stars drawn by one call of \<open>gameLoop\<close>
  and by one event.\<close>

fun drawnStars :: "('e \<Rightarrow> Star \<Rightarrow> Star \<times> 'e) \<Rightarrow> 'e \<Rightarrow> Star list \<Rightarrow> Star list" where
  "drawnStars cb e [] = []"
| "drawnStars cb e (star # rest) =
     (if active star then [fst (cb e star)] else []) @ drawnStars cb (snd (cb e star)) rest"

definition drawnIn_cam :: "GameEngine \<Rightarrow> FrameIn \<Rightarrow> Star list" where
  "drawnIn_cam e f =
     (if \<not> isPlaying e then []
      else (case detectMotion_cam e f of
              Inl err \<Rightarrow> []
            | Inr (ms, e1) \<Rightarrow>
                (let e2 = spawnStar_cam e1 f in drawnStars (visitStar_cam ms) e2 (stars e2))))"




text \<open>A star caught at scale 1, and the same star nine frames later, at the scale
  2.8000000000000003 that nine rounded sums have reached, alone in the collection of a
  playing engine.\<close>

definition caughtStar :: Star where
  "caughtStar = \<lparr>star_id = 2000, star_x = 0.5, star_y = 0.5, star_size = 30, hue = 0,
                  active = True, collected = True, star_scale = 1\<rparr>"

definition burstingStar :: Star where
  "burstingStar = \<lparr>star_id = 2000, star_x = 0.5, star_y = 0.5, star_size = 30, hue = 0,
                    active = True, collected = True,
                    star_scale = 6305039478318695 / 2251799813685248\<rparr>"

definition bursting_cam :: GameEngine where
  "bursting_cam = playing_cam\<lparr>stars := [burstingStar], lastStarTime := 3000\<rparr>"

definition bursting_fb :: FallbackEngine where
  "bursting_fb = playingFallback\<lparr>stars := [burstingStar], lastStarTime := 3000\<rparr>"

text \<open>Every frame of the list is played: no call of \<open>gameLoop\<close> throws.\<close>

fun framesRun_cam :: "GameEngine \<Rightarrow> FrameIn list \<Rightarrow> bool" where
  "framesRun_cam e [] = True"
| "framesRun_cam e (f # fs) =
     (case gameLoop_cam e f of Inl err \<Rightarrow> False | Inr e' \<Rightarrow> framesRun_cam e' fs)"

fun framesRun_fb :: "FallbackEngine \<Rightarrow> FrameIn list \<Rightarrow> bool" where
  "framesRun_fb e [] = True"
| "framesRun_fb e (f # fs) =
     (case gameLoop_fb e f of Inl err \<Rightarrow> False | Inr e' \<Rightarrow> framesRun_fb e' fs)"

subsection \<open>Collections by the pointer\<close>

text \<open>A call of the callback collects the star on a hit of the pointer test: the star is
  alive and not yet collected, and block 1 sets \<open>isHit\<close>. Counted over one pass of the
  callback, over one call of \<open>gameLoop\<close>, and over a list of frames with no pointer event
  in between.\<close>

definition pointerCollects :: "FallbackEngine \<Rightarrow> Star \<Rightarrow> bool" where
  "pointerCollects e star = (active star \<and> \<not> collected star \<and> pointerCheck e star)"

fun pointerCollections :: "MotionSample \<Rightarrow> FallbackEngine \<Rightarrow> Star list \<Rightarrow> nat" where
  "pointerCollections ms e [] = 0"
| "pointerCollections ms e (star # rest) =
     (if pointerCollects e star then 1 else 0)
       + pointerCollections ms (snd (visitStar_fb ms e star)) rest"

definition pointerCollectionsIn :: "FallbackEngine \<Rightarrow> FrameIn \<Rightarrow> nat" where
  "pointerCollectionsIn e f =
     (if \<not> isPlaying e then 0
      else (case detectMotion_fb e f of
              Inl err \<Rightarrow> 0
            | Inr (ms, e1) \<Rightarrow>
                (let e2 = spawnStar_fb e1 f in pointerCollections ms e2 (stars e2))))"

fun pointerCollectionsOver :: "FallbackEngine \<Rightarrow> FrameIn list \<Rightarrow> nat" where
  "pointerCollectionsOver e [] = 0"
| "pointerCollectionsOver e (f # fs) =
     pointerCollectionsIn e f + pointerCollectionsOver (onFrame_fb e f) fs"

text \<open>Two stars under the recorded pointer.\<close>

definition secondStar :: Star where
  "secondStar = \<lparr>star_id = 3500, star_x = 0.5, star_y = 0.5, star_size = 30, hue = 0,
                  active = True, collected = False, star_scale = 1\<rparr>"

definition crowded :: FallbackEngine where
  "crowded = touched\<lparr>stars := [nearStar, secondStar], lastStarTime := 4000\<rparr>"

definition crowdedFallback :: FallbackEngine where
  "crowdedFallback = crowded\<lparr>cameraActive := False\<rparr>"

section \<open>Verification\<close>

subsection \<open>Rounding\<close>













text \<open>The first step of the fade-in of \<open>part_001\<close>: the double nearest to 0.1.\<close>

lemma faded_once:
  "dadd 0 (fround 0.1) = 3602879701896397 / 36028797018963968"
  "dadd 0 (fround (1 / 10)) = 3602879701896397 / 36028797018963968"
  by code_simp+

subsection \<open>Frame differencing and the threshold\<close>

declare diffLoop.simps [simp del]

lemma diffLoop_length: "length (diffLoop t cur prev i m) = length m"
  by (induction t cur prev i m rule: diffLoop.induct) (subst diffLoop.simps, simp)

lemma flaggedCells_update:
  "v \<noteq> 0 \<Longrightarrow>
   flaggedCells (m[k := v]) = (if k < length m then insert k (flaggedCells m) else flaggedCells m)"
  by (auto simp: flaggedCells_def nth_list_update)

lemma exceeds_mono: "t1 \<le> t2 \<Longrightarrow> exceeds d t2 \<Longrightarrow> exceeds d t1"
  by (cases d) (auto simp: exceeds_def)

text \<open>Two runs of the loop over the same frames, the second with the higher threshold:
  what the second flags, the first flags too.\<close>

lemma diffLoop_mono:
  "t1 \<le> t2 \<Longrightarrow> length m1 = length m2 \<Longrightarrow> flaggedCells m2 \<subseteq> flaggedCells m1 \<Longrightarrow>
   flaggedCells (diffLoop t2 cur prev i m2) \<subseteq> flaggedCells (diffLoop t1 cur prev i m1)"
proof (induction t1 cur prev i m1 arbitrary: m2 rule: diffLoop.induct)
  case (1 t cur prev i m)
  show ?case
  proof (cases "i < length cur")
    case False
    then show ?thesis using "1.prems" by (simp add: diffLoop.simps)
  next
    case True
    let ?n1 = "if exceeds (pixelDiff cur prev i) t then m[i div 4 := 1] else m"
    let ?n2 = "if exceeds (pixelDiff cur prev i) t2 then m2[i div 4 := 1] else m2"
    have len: "length ?n1 = length ?n2" using "1.prems" by simp
    have sub: "flaggedCells ?n2 \<subseteq> flaggedCells ?n1"
      using "1.prems" exceeds_mono [of t t2 "pixelDiff cur prev i"]
      by (auto simp: flaggedCells_update)
    have "flaggedCells (diffLoop t2 cur prev (i + 4) ?n2)
            \<subseteq> flaggedCells (diffLoop t cur prev (i + 4) ?n1)"
      using "1.IH" [OF True "1.prems"(1) len sub] .
    then show ?thesis using True
      by (subst (1 2) diffLoop.simps) simp
  qed
qed

lemma finite_flaggedCells: "finite (flaggedCells m)"
  by (simp add: flaggedCells_def)

lemma flaggedCells_filter:
  "flaggedCells m = set (filter (\<lambda>k. m ! k \<noteq> 0) [0..<length m])"
  by (auto simp: flaggedCells_def)

lemma card_flaggedCells:
  "card (flaggedCells m) = length (filter (\<lambda>k. m ! k \<noteq> 0) [0..<length m])"
  unfolding flaggedCells_filter by (rule distinct_card) simp

text \<open>
  Claim C9, as amended. For every current frame, previous frame and mask size, and any two
  thresholds \<open>t1 \<le> t2\<close>: every cell flagged at the threshold \<open>t2\<close> is flagged at \<open>t1\<close>, so
  the number of flagged cells at \<open>t2\<close> is at most the number at \<open>t1\<close>. The count does not
  grow with the threshold: it is non-increasing in it.
\<close>

theorem flagged_cells_antitone_in_threshold:
  "t1 \<le> t2 \<Longrightarrow>
   flaggedCells (buildMotionMap t2 prev cur w h) \<subseteq> flaggedCells (buildMotionMap t1 prev cur w h) \<and>
   card (flaggedCells (buildMotionMap t2 prev cur w h))
     \<le> card (flaggedCells (buildMotionMap t1 prev cur w h))"
proof -
  assume le: "t1 \<le> t2"
  have sub: "flaggedCells (buildMotionMap t2 prev cur w h)
               \<subseteq> flaggedCells (buildMotionMap t1 prev cur w h)"
  proof (cases prev)
    case None
    then show ?thesis by (simp add: buildMotionMap_def)
  next
    case (Some p)
    then show ?thesis
      using diffLoop_mono [OF le, of "replicate (w * h) 0" "replicate (w * h) 0" cur p 0]
      by (simp add: buildMotionMap_def)
  qed
  then show ?thesis
    by (simp add: card_mono finite_flaggedCells)
qed

text \<open>One red pixel that changes by 100: flagged at the threshold 35 of \<open>part_001\<close>, not
  flagged at the threshold 200.\<close>

lemma one_pixel_at_35:
  "buildMotionMap 35 (Some [0, 0, 0, 255]) [100, 0, 0, 255] 1 1 = [1]"
  by (simp add: buildMotionMap_def diffLoop.simps pixelDiff_def channelDiff_def exceeds_def)

lemma one_pixel_at_200:
  "buildMotionMap 200 (Some [0, 0, 0, 255]) [100, 0, 0, 255] 1 1 = [0]"
  by (simp add: buildMotionMap_def diffLoop.simps pixelDiff_def channelDiff_def exceeds_def)

theorem flagged_cells_antitone_in_threshold_witness:
  "(35::int) \<le> 200 \<and>
   flaggedCells (buildMotionMap 200 (Some [0, 0, 0, 255]) [100, 0, 0, 255] 1 1)
     \<subseteq> flaggedCells (buildMotionMap 35 (Some [0, 0, 0, 255]) [100, 0, 0, 255] 1 1) \<and>
   card (flaggedCells (buildMotionMap 200 (Some [0, 0, 0, 255]) [100, 0, 0, 255] 1 1))
     \<le> card (flaggedCells (buildMotionMap 35 (Some [0, 0, 0, 255]) [100, 0, 0, 255] 1 1))"
  using flagged_cells_antitone_in_threshold
          [of 35 200 "Some [0, 0, 0, 255]" "[100, 0, 0, 255]" 1 1]
  by simp

text \<open>Claim C9 as worded calls the count non-decreasing in the threshold. It is not: on
  the frames above the count is 1 at the threshold 35 and 0 at the threshold 200.\<close>

theorem flagged_count_nondecreasing_counterexample:
  "\<not> card (flaggedCells (buildMotionMap 35 (Some [0, 0, 0, 255]) [100, 0, 0, 255] 1 1))
      \<le> card (flaggedCells (buildMotionMap 200 (Some [0, 0, 0, 255]) [100, 0, 0, 255] 1 1))"
  unfolding one_pixel_at_35 one_pixel_at_200 card_flaggedCells by simp

subsection \<open>The neighbourhood count\<close>

lemma card_neighbourhood: "0 \<le> r \<Longrightarrow> card (neighbourhood r cx cy) = nat ((2 * r + 1) ^ 2)"
  by (simp add: neighbourhood_def card_cartesian_product power2_eq_square nat_mult_distrib)

lemma count_inner:
  "foldl (\<lambda>hits x. if P x then hits + 1 else hits) h xs = h + length (filter P xs)"
  by (induction xs arbitrary: h) auto

lemma count_rows:
  "foldl (\<lambda>hits y. hits + length (filter (\<lambda>x. P x y) xs)) h ys
     = h + length (filter (\<lambda>(y, x). P x y) (List.product ys xs))"
proof (induction ys arbitrary: h)
  case Nil
  then show ?case by simp
next
  case (Cons y ys)
  have "length (filter (\<lambda>(y, x). P x y) (map (Pair y) xs)) = length (filter (\<lambda>x. P x y) xs)"
    by (simp add: filter_map o_def)
  then show ?case
    by (simp add: Cons.IH)
qed

lemma count_outer:
  "foldl (\<lambda>hits y. foldl (\<lambda>hits x. if P x y then hits + 1 else hits) hits xs) h ys
     = h + length (filter (\<lambda>(y, x). P x y) (List.product ys xs))"
  by (simp only: count_inner count_rows)

lemma countHits_filter:
  "countHits r ms cx cy =
     length (filter (\<lambda>(dy, dx). cellHit ms (cx + dx) (cy + dy)) (List.product [- r..r] [- r..r]))"
  unfolding countHits_def by (simp add: count_outer)

lemma cellHit_flagged:
  "cellHit ms gx gy \<longleftrightarrow>
     0 \<le> gx \<and> gx < int (width ms) \<and> 0 \<le> gy \<and> gy < int (height ms) \<and>
     nat (gy * int (width ms) + gx) \<in> flaggedCells (motionMap ms)"
  by (auto simp: cellHit_def truthy_def flaggedCells_def)

lemma flaggedAround_image:
  "flaggedAround r ms cx cy =
     (\<lambda>(dy, dx). (cx + dx, cy + dy)) `
       set (filter (\<lambda>(dy, dx). cellHit ms (cx + dx) (cy + dy)) (List.product [- r..r] [- r..r]))"
proof (rule set_eqI, rule iffI)
  fix c assume "c \<in> flaggedAround r ms cx cy"
  then obtain gx gy where c: "c = (gx, gy)" and nb: "(gx, gy) \<in> neighbourhood r cx cy"
    and hit: "cellHit ms gx gy"
    by (auto simp: flaggedAround_def cellHit_flagged)
  have "(gy - cy, gx - cx) \<in> set (filter (\<lambda>(dy, dx). cellHit ms (cx + dx) (cy + dy))
           (List.product [- r..r] [- r..r]))"
    using nb hit by (auto simp: neighbourhood_def)
  moreover have "c = (\<lambda>(dy, dx). (cx + dx, cy + dy)) (gy - cy, gx - cx)"
    using c by simp
  ultimately show "c \<in> (\<lambda>(dy, dx). (cx + dx, cy + dy)) `
       set (filter (\<lambda>(dy, dx). cellHit ms (cx + dx) (cy + dy)) (List.product [- r..r] [- r..r]))"
    by (rule rev_image_eqI)
next
  fix c assume "c \<in> (\<lambda>(dy, dx). (cx + dx, cy + dy)) `
       set (filter (\<lambda>(dy, dx). cellHit ms (cx + dx) (cy + dy)) (List.product [- r..r] [- r..r]))"
  then show "c \<in> flaggedAround r ms cx cy"
    by (auto simp: flaggedAround_def cellHit_flagged neighbourhood_def)
qed

text \<open>The nested loops count the flagged grid cells of the neighbourhood, each once.\<close>

lemma countHits_card: "countHits r ms cx cy = card (flaggedAround r ms cx cy)"
proof -
  let ?L = "filter (\<lambda>(dy, dx). cellHit ms (cx + dx) (cy + dy)) (List.product [- r..r] [- r..r])"
  have inj: "inj_on (\<lambda>(dy, dx). (cx + dx, cy + dy)) (set ?L)"
    by (auto simp: inj_on_def)
  have "distinct ?L"
    by (simp add: distinct_product)
  then have "card (set ?L) = length ?L"
    by (rule distinct_card)
  moreover have "card ((\<lambda>(dy, dx). (cx + dx, cy + dy)) ` set ?L) = card (set ?L)"
    by (rule card_image [OF inj])
  ultimately show ?thesis
    by (simp only: countHits_filter flaggedAround_image)
qed

text \<open>Fading in changes the scale only: the grid cell and the distance to the pointer
  stay.\<close>

lemma gridX_fade [simp]: "gridX ms (star\<lparr>star_scale := v\<rparr>) = gridX ms star"
  by (simp add: gridX_def)

lemma gridY_fade [simp]: "gridY ms (star\<lparr>star_scale := v\<rparr>) = gridY ms star"
  by (simp add: gridY_def)

lemma pointerCheck_fade [simp]: "pointerCheck e (star\<lparr>star_scale := v\<rparr>) = pointerCheck e star"
  by (simp add: pointerCheck_def)

lemma collected_visitStar_cam:
  "active star \<Longrightarrow> \<not> collected star \<Longrightarrow>
   collected (fst (visitStar_cam ms e star)) \<longleftrightarrow> 14 < countHits 3 ms (gridX ms star) (gridY ms star)"
  by (simp add: visitStar_cam_def Let_def motionHits_cam_def)

lemma collected_visitStar_fb:
  "active star \<Longrightarrow> \<not> collected star \<Longrightarrow>
   collected (fst (visitStar_fb ms e star)) \<longleftrightarrow>
     pointerCheck e star \<or>
     cameraActive e \<and> 0 < width ms \<and> 4 < countHits 2 ms (gridX ms star) (gridY ms star)"
  by (auto simp: visitStar_fb_def Let_def cameraCheck_def)

text \<open>The sample inputs.\<close>

lemma centreStar_flags: "active centreStar" "\<not> collected centreStar"
  by (simp_all add: centreStar_def)

lemma rowMask_grid: "gridX rowMask centreStar = 2" "gridY rowMask centreStar = 2"
  by (simp_all add: gridX_def gridY_def rowMask_def centreStar_def)

lemma rowMask_hits: "countHits 2 rowMask 2 2 = 5" "countHits 3 rowMask 2 2 = 5"
  by code_simp+

lemma rowMask_width: "width rowMask = 5"
  by (simp add: rowMask_def)

lemma playingWithCamera_fields:
  "cameraActive playingWithCamera" "isPlaying playingWithCamera"
  "lastTouchX playingWithCamera = - 1" "score playingWithCamera = 0"
  by (simp_all add: playingWithCamera_def newEngine_fb_def)

lemma no_pointer: "\<not> pointerCheck playingWithCamera star"
  by (simp add: pointerCheck_def playingWithCamera_fields)

text \<open>
  Claim C3, as amended. A star that is alive and not yet collected is collected by camera
  motion exactly when the number of flagged grid cells in the square around its grid cell
  exceeds a fixed count: more than 14 of the 49 cells of radius 3 in \<open>index.tsx\<close>, more
  than 4 of the 25 cells of radius 2 in \<open>part_001\<close> (there when the pointer did not hit, the
  camera is active and the mask is not empty). The thresholds are 29 and 16 percent of
  the neighbourhood, not 35 to 45 percent.
\<close>

theorem camera_hit_thresholds:
  "(active star \<and> \<not> collected star \<longrightarrow>
      (collected (fst (visitStar_cam ms e star)) \<longleftrightarrow>
         14 < card (flaggedAround 3 ms (gridX ms star) (gridY ms star)))) \<and>
   card (neighbourhood 3 (gridX ms star) (gridY ms star)) = 49 \<and>
   (active star \<and> \<not> collected star \<and> \<not> pointerCheck e' star \<and> cameraActive e' \<and> 0 < width ms \<longrightarrow>
      (collected (fst (visitStar_fb ms e' star)) \<longleftrightarrow>
         4 < card (flaggedAround 2 ms (gridX ms star) (gridY ms star)))) \<and>
   card (neighbourhood 2 (gridX ms star) (gridY ms star)) = 25"
  by (simp add: collected_visitStar_cam collected_visitStar_fb countHits_card card_neighbourhood)

text \<open>Five flagged cells around the star in the middle: not enough for \<open>index.tsx\<close>,
  enough for \<open>part_001\<close>.\<close>

theorem camera_hit_thresholds_witness:
  "active centreStar \<and> \<not> collected centreStar \<and> \<not> pointerCheck playingWithCamera centreStar \<and>
   cameraActive playingWithCamera \<and> 0 < width rowMask \<and>
   card (flaggedAround 3 rowMask 2 2) = 5 \<and>
   \<not> collected (fst (visitStar_cam rowMask playing_cam centreStar)) \<and>
   card (flaggedAround 2 rowMask 2 2) = 5 \<and>
   collected (fst (visitStar_fb rowMask playingWithCamera centreStar))"
  using camera_hit_thresholds [of centreStar rowMask playing_cam playingWithCamera]
  by (simp add: rowMask_grid rowMask_hits rowMask_width no_pointer centreStar_flags
        playingWithCamera_fields countHits_card [symmetric])

text \<open>Claim C3 as worded puts the threshold at 35 to 45 percent of the neighbourhood. In
  \<open>part_001\<close> the camera test hits, and the star is collected, with 5 flagged cells of 25:
  20 percent.\<close>

theorem camera_hit_below_35_percent_counterexample:
  "collected (fst (visitStar_fb rowMask playingWithCamera centreStar)) \<and>
   cameraCheck rowMask playingWithCamera centreStar False \<and>
   100 * card (flaggedAround 2 rowMask (gridX rowMask centreStar) (gridY rowMask centreStar))
     < 35 * card (neighbourhood 2 (gridX rowMask centreStar) (gridY rowMask centreStar))"
proof -
  have "collected (fst (visitStar_fb rowMask playingWithCamera centreStar))"
    by (simp add: collected_visitStar_fb rowMask_grid rowMask_hits rowMask_width
          centreStar_flags playingWithCamera_fields)
  moreover have "cameraCheck rowMask playingWithCamera centreStar False"
    by (simp add: cameraCheck_def rowMask_grid rowMask_hits rowMask_width
          playingWithCamera_fields)
  ultimately show ?thesis
    by (simp add: rowMask_grid rowMask_hits countHits_card [symmetric] card_neighbourhood)
qed

subsection \<open>The order of the two hit tests\<close>

lemma sqrt_less_bound: "0 < b \<Longrightarrow> sqrt a < b \<longleftrightarrow> a < b * b"
  by (metis abs_of_pos real_sqrt_abs2 real_sqrt_less_iff)

lemma sqrt_less_015: "sqrt a < 0.15 \<longleftrightarrow> a < 0.0225"
proof -
  have "sqrt a < 0.15 \<longleftrightarrow> a < 0.15 * 0.15"
    by (rule sqrt_less_bound) simp
  also have "(0.15::real) * 0.15 = 0.0225"
    by simp
  finally show ?thesis .
qed

lemma pointerCheck_iff:
  "pointerCheck e star \<longleftrightarrow>
     lastTouchX e \<noteq> - 1 \<and>
     (star_x star - lastTouchX e) * (star_x star - lastTouchX e) +
     (star_y star - lastTouchY e) * (star_y star - lastTouchY e) < 0.0225"
  unfolding pointerCheck_def Let_def sqrt_less_015 by simp

text \<open>The test without the square root, for evaluation.\<close>

declare pointerCheck_iff [code]

lemma cameraCheck_iff:
  "cameraCheck ms e star isHit \<longleftrightarrow>
     isHit \<or> cameraActive e \<and> 0 < width ms \<and> 4 < countHits 2 ms (gridX ms star) (gridY ms star)"
  by (auto simp: cameraCheck_def)


lemma touched_near: "pointerCheck touched nearStar"
  by (simp add: pointerCheck_iff touched_def nearStar_def)

lemma cameraCheck_fade [simp]:
  "cameraCheck ms e (star\<lparr>star_scale := v\<rparr>) isHit = cameraCheck ms e star isHit"
  by (simp add: cameraCheck_def)

lemma visitStar_fb_hit:
  assumes "active star" and "\<not> collected star"
    and "cameraCheck ms e star (pointerCheck e star)"
  shows "collected (fst (visitStar_fb ms e star))"
    and "snd (visitStar_fb ms e star) = e\<lparr>score := score e + 10, lastTouchX := - 1, lastTouchY := - 1\<rparr>"
  using assms by (simp_all add: visitStar_fb_def Let_def)

lemma visitStar_fb_miss:
  assumes "active star" and "\<not> collected star"
    and "\<not> cameraCheck ms e star (pointerCheck e star)"
  shows "\<not> collected (fst (visitStar_fb ms e star))"
    and "snd (visitStar_fb ms e star) = e"
  using assms by (simp_all add: visitStar_fb_def Let_def)

lemma farTouched_fields:
  "cameraActive farTouched" "lastTouchX farTouched = 0" "lastTouchY farTouched = 0"
  "score farTouched = 0"
  by (simp_all add: farTouched_def playingWithCamera_def newEngine_fb_def)

lemma farTouched_misses: "\<not> pointerCheck farTouched centreStar"
  by (simp add: pointerCheck_iff farTouched_def centreStar_def)

lemma emptySample_width: "width emptySample = 0"
  by (simp add: emptySample_def)



text \<open>Claim C5 as worded lets the camera test run only in the else case of the pointer
  test. The pointer test of \<open>part_001\<close> has no else: the camera test is guarded by
  \<open>!isHit\<close>, so it also runs while a pointer is pending that did not reach the star. With the
  pointer in the corner the star in the middle is collected by the row mask and not by the
  empty one, and the collection clears the pending pointer.\<close>

theorem camera_check_runs_with_pending_pointer_counterexample:
  "lastTouchX farTouched \<noteq> - 1 \<and> \<not> pointerCheck farTouched centreStar \<and>
   collected (fst (visitStar_fb rowMask farTouched centreStar)) \<and>
   \<not> collected (fst (visitStar_fb emptySample farTouched centreStar)) \<and>
   lastTouchX (snd (visitStar_fb rowMask farTouched centreStar)) = - 1 \<and>
   lastTouchX (snd (visitStar_fb emptySample farTouched centreStar)) = 0"
proof -
  have hit: "cameraCheck rowMask farTouched centreStar (pointerCheck farTouched centreStar)"
    by (simp add: cameraCheck_iff farTouched_misses farTouched_fields rowMask_grid
          rowMask_hits rowMask_width)
  have miss: "\<not> cameraCheck emptySample farTouched centreStar (pointerCheck farTouched centreStar)"
    by (simp add: cameraCheck_iff farTouched_misses emptySample_width)
  show ?thesis
    using visitStar_fb_hit [OF centreStar_flags hit] visitStar_fb_miss [OF centreStar_flags miss]
    by (simp add: farTouched_misses farTouched_fields)
qed

subsection \<open>The shape of a frame\<close>

lemma snd_visitAll_Cons [simp]:
  "snd (visitAll cb e (star # rest)) = snd (visitAll cb (snd (cb e star)) rest)"
  by (simp split: prod.splits)

lemma fst_visitAll_Cons [simp]:
  "fst (visitAll cb e (star # rest)) = fst (cb e star) # fst (visitAll cb (snd (cb e star)) rest)"
  by (simp split: prod.splits)

lemma visitAll_keeps:
  assumes "\<And>e star. g (snd (cb e star)) = g e"
  shows "g (snd (visitAll cb e ss)) = g e"
  by (induction ss arbitrary: e) (simp_all add: assms del: visitAll.simps(2))

text \<open>The three ways a call of \<open>gameLoop\<close> can go.\<close>

lemma gameLoop_cam_idle: "\<not> isPlaying e \<Longrightarrow> gameLoop_cam e f = Inr e"
  by (simp add: gameLoop_cam_def)

lemma gameLoop_cam_abort:
  "isPlaying e \<Longrightarrow> detectMotion_cam e f = Inl err \<Longrightarrow> gameLoop_cam e f = Inl err"
  by (simp add: gameLoop_cam_def)

lemma gameLoop_cam_run:
  "isPlaying e \<Longrightarrow> detectMotion_cam e f = Inr (ms, e1) \<Longrightarrow>
   gameLoop_cam e f = Inr (visitStars_cam ms (spawnStar_cam e1 f))"
  by (simp add: gameLoop_cam_def visitStars_cam_def Let_def case_prod_beta)

lemma gameLoop_cam_cases:
  obtains (idle) "\<not> isPlaying e" "gameLoop_cam e f = Inr e"
  | (abort) err where "isPlaying e" "detectMotion_cam e f = Inl err" "gameLoop_cam e f = Inl err"
  | (run) ms e1 where "isPlaying e" "detectMotion_cam e f = Inr (ms, e1)"
      "gameLoop_cam e f = Inr (visitStars_cam ms (spawnStar_cam e1 f))"
proof (cases "isPlaying e")
  case False
  then show thesis using idle gameLoop_cam_idle by blast
next
  case True
  show thesis
  proof (cases "detectMotion_cam e f")
    case (Inl err)
    then show thesis using True abort gameLoop_cam_abort by blast
  next
    case (Inr r)
    then have "detectMotion_cam e f = Inr (fst r, snd r)" by simp
    then show thesis using True run gameLoop_cam_run by blast
  qed
qed

lemma gameLoop_fb_idle: "\<not> isPlaying e \<Longrightarrow> gameLoop_fb e f = Inr e"
  by (simp add: gameLoop_fb_def)

lemma gameLoop_fb_abort:
  "isPlaying e \<Longrightarrow> detectMotion_fb e f = Inl err \<Longrightarrow> gameLoop_fb e f = Inl err"
  by (simp add: gameLoop_fb_def)

lemma gameLoop_fb_run:
  "isPlaying e \<Longrightarrow> detectMotion_fb e f = Inr (ms, e1) \<Longrightarrow>
   gameLoop_fb e f = Inr (visitStars_fb ms (spawnStar_fb e1 f))"
  by (simp add: gameLoop_fb_def visitStars_fb_def Let_def case_prod_beta)

lemma gameLoop_fb_cases:
  obtains (idle) "\<not> isPlaying e" "gameLoop_fb e f = Inr e"
  | (abort) err where "isPlaying e" "detectMotion_fb e f = Inl err" "gameLoop_fb e f = Inl err"
  | (run) ms e1 where "isPlaying e" "detectMotion_fb e f = Inr (ms, e1)"
      "gameLoop_fb e f = Inr (visitStars_fb ms (spawnStar_fb e1 f))"
proof (cases "isPlaying e")
  case False
  then show thesis using idle gameLoop_fb_idle by blast
next
  case True
  show thesis
  proof (cases "detectMotion_fb e f")
    case (Inl err)
    then show thesis using True abort gameLoop_fb_abort by blast
  next
    case (Inr r)
    then have "detectMotion_fb e f = Inr (fst r, snd r)" by simp
    then show thesis using True run gameLoop_fb_run by blast
  qed
qed

lemma detectMotion_cam_engine:
  "detectMotion_cam e f = Inr (ms, e1) \<Longrightarrow> e1 = e\<lparr>prevFrame := Some (imageData f)\<rparr>"
  by (auto simp: detectMotion_cam_def getImageData_def split: if_splits)

lemma detectMotion_fb_engine:
  "detectMotion_fb e f = Inr (ms, e1) \<Longrightarrow> e1 = e \<or> e1 = e\<lparr>prevFrame := Some (imageData f)\<rparr>"
  by (auto simp: detectMotion_fb_def getImageData_def split: if_splits)

subsection \<open>The camera mode\<close>

lemma cameraActive_visitStar_fb [simp]:
  "cameraActive (snd (visitStar_fb ms e star)) = cameraActive e"
  by (simp add: visitStar_fb_def Let_def)

lemma cameraActive_spawnStar_fb [simp]: "cameraActive (spawnStar_fb e f) = cameraActive e"
  by (simp add: spawnStar_fb_def)

lemma cameraActive_visitStars_fb [simp]: "cameraActive (visitStars_fb ms e) = cameraActive e"
  by (simp add: visitStars_fb_def visitAll_keeps [where g = cameraActive])

lemma cameraActive_gameLoop_fb:
  "gameLoop_fb e f = Inr e' \<Longrightarrow> cameraActive e' = cameraActive e"
proof (cases rule: gameLoop_fb_cases [of e f])
  case (run ms e1)
  assume "gameLoop_fb e f = Inr e'"
  with run have "e' = visitStars_fb ms (spawnStar_fb e1 f)" by simp
  moreover have "cameraActive e1 = cameraActive e"
    using detectMotion_fb_engine [OF run(2)] by auto
  ultimately show ?thesis by simp
qed auto

lemma cameraActive_step_fb [simp]: "cameraActive (step_fb e ev) = cameraActive e"
proof (cases ev)
  case (Click f)
  have "cameraActive (started e) = cameraActive e" by (simp add: started_def)
  then show ?thesis using Click cameraActive_gameLoop_fb [of "started e" f]
    by (auto simp: start_fb_def Let_def split: sum.splits)
next
  case (Frame f)
  then show ?thesis using cameraActive_gameLoop_fb [of e f]
    by (auto simp: onFrame_fb_def split: sum.splits)
next
  case (Pointer px py)
  then show ?thesis by (simp add: handleInteraction_def)
qed

lemma cameraActive_run_fb [simp]: "cameraActive (foldl step_fb e evs) = cameraActive e"
  by (induction evs arbitrary: e) simp_all

lemma init_fb_fails: "acquisitionFails p \<Longrightarrow> \<not> cameraActive (init_fb p e)"
  by (auto simp: acquisitionFails_def init_fb_def tryCamera_def setFallbackMode_def
      split: option.splits)

text \<open>
  Claim C6. When the camera is not acquired (the API is missing, or both requests are
  rejected), \<open>init\<close> of \<open>part_001\<close> ends with the camera off, and it stays off after any
  sequence of clicks, frames and pointer events. The same holds for every exception that
  reaches the \<open>catch\<close> of \<open>init\<close>, which is how \<open>init\<close> does not throw. No event changes
  the mode that \<open>init\<close> has set.
\<close>

theorem fallback_is_permanent:
  "(acquisitionFails p \<longrightarrow>
      \<not> cameraActive (init_fb p newEngine_fb) \<and> \<not> cameraActive (session_fb p evs)) \<and>
   (hasGetUserMedia p \<and> tryCamera p newEngine_fb = Inl name \<longrightarrow>
      \<not> cameraActive (session_fb p evs)) \<and>
   cameraActive (session_fb p evs) = cameraActive (init_fb p newEngine_fb)"
  by (simp add: session_fb_def init_fb_fails) (simp add: init_fb_def setFallbackMode_def)

theorem fallback_is_permanent_witness:
  "acquisitionFails noCamera \<and> hasGetUserMedia noCamera \<and>
   tryCamera noCamera newEngine_fb = Inl ''NotFoundError'' \<and>
   \<not> cameraActive (init_fb noCamera newEngine_fb) \<and>
   \<not> cameraActive (session_fb noCamera [Click blankFrame, Pointer 0.5 0.5, Frame blankFrame])"
  using fallback_is_permanent
          [of noCamera "[Click blankFrame, Pointer 0.5 0.5, Frame blankFrame]" "''NotFoundError''"]
  by (simp add: acquisitionFails_def noCamera_def tryCamera_def)

subsection \<open>Sampling without a readable frame\<close>

lemma detectMotion_cam_size:
  "detectMotion_cam e f = Inr (ms, e1) \<Longrightarrow>
     width ms = canvasWidth f \<and> height ms = canvasHeight f \<and> 0 < width ms \<and> 0 < height ms"
  by (auto simp: detectMotion_cam_def getImageData_def split: if_splits)

lemma playingFallback_fields:
  "\<not> cameraActive playingFallback" "isPlaying playingFallback"
  by (simp_all add: playingFallback_def newEngine_fb_def)

text \<open>
  Claim C8, as amended. In \<open>part_001\<close>, whenever the camera is off or the video has no
  current frame (\<open>readyState < 2\<close>), \<open>detectMotion\<close> returns the empty mask of width and
  height 0 and leaves the engine as it is, without touching the canvas; with that mask the
  camera test never turns a miss into a hit; and \<open>gameLoop\<close> returns. The engine of
  \<open>index.tsx\<close> has no such check: whenever its \<open>detectMotion\<close> returns, the mask has the
  size of the motion canvas, which is not empty.
\<close>

theorem empty_mask_when_not_ready:
  "(\<not> cameraActive e \<or> readyState f < 2 \<longrightarrow>
      detectMotion_fb e f = Inr (emptySample, e) \<and>
      width emptySample = 0 \<and> height emptySample = 0 \<and>
      (\<forall>star isHit. cameraCheck emptySample e star isHit = isHit) \<and>
      (\<exists>e'. gameLoop_fb e f = Inr e')) \<and>
   (detectMotion_cam c f = Inr (ms, c1) \<longrightarrow>
      width ms = canvasWidth f \<and> height ms = canvasHeight f \<and> 0 < width ms \<and> 0 < height ms)"
proof (intro conjI impI)
  assume off: "\<not> cameraActive e \<or> readyState f < 2"
  then show dm: "detectMotion_fb e f = Inr (emptySample, e)"
    by (auto simp: detectMotion_fb_def)
  show "width emptySample = 0" "height emptySample = 0"
    by (simp_all add: emptySample_def)
  show "\<forall>star isHit. cameraCheck emptySample e star isHit = isHit"
    by (simp add: cameraCheck_def emptySample_def)
  show "\<exists>e'. gameLoop_fb e f = Inr e'"
    using dm by (cases rule: gameLoop_fb_cases [of e f]) auto
next
  assume "detectMotion_cam c f = Inr (ms, c1)"
  then show "width ms = canvasWidth f" "height ms = canvasHeight f" "0 < width ms" "0 < height ms"
    using detectMotion_cam_size by blast+
qed

text \<open>Without a camera the frame is played all the same: a star is spawned and fades in.\<close>

theorem empty_mask_when_not_ready_witness:
  "\<not> cameraActive playingFallback \<and>
   detectMotion_fb playingFallback blankFrame = Inr (emptySample, playingFallback) \<and>
   gameLoop_fb playingFallback blankFrame =
     Inr (playingFallback
           \<lparr>stars := [\<lparr>star_id = 5000, star_x = 0.5, star_y = 0.5, star_size = 45, hue = 180,
                       active = True, collected = False,
                       star_scale = 3602879701896397 / 36028797018963968\<rparr>],
            lastStarTime := 5000\<rparr>) \<and>
   detectMotion_cam playing_cam blankFrame =
     Inr (\<lparr>motionMap = [0, 0], width = 2, height = 1\<rparr>,
          playing_cam\<lparr>prevFrame := Some [0, 0, 0, 0,  0, 0, 0, 0]\<rparr>) \<and>
   canvasWidth blankFrame = 2 \<and> canvasHeight blankFrame = 1"
proof -
  have dm: "detectMotion_fb playingFallback blankFrame = Inr (emptySample, playingFallback)"
    using empty_mask_when_not_ready [of playingFallback blankFrame] playingFallback_fields
    by simp
  have "gameLoop_fb playingFallback blankFrame =
     Inr (playingFallback
           \<lparr>stars := [\<lparr>star_id = 5000, star_x = 0.5, star_y = 0.5, star_size = 45, hue = 180,
                       active = True, collected = False,
                       star_scale = 3602879701896397 / 36028797018963968\<rparr>],
            lastStarTime := 5000\<rparr>)"
    unfolding gameLoop_fb_run [OF playingFallback_fields(2) dm]
    by (simp add: visitStars_fb_def spawnStar_fb_def visitStar_fb_def Let_def
          pointerCheck_def cameraCheck_def playingFallback_def newEngine_fb_def
          blankFrame_def faded_once)
  moreover have "detectMotion_cam playing_cam blankFrame =
     Inr (\<lparr>motionMap = [0, 0], width = 2, height = 1\<rparr>,
          playing_cam\<lparr>prevFrame := Some [0, 0, 0, 0,  0, 0, 0, 0]\<rparr>)"
    by (simp add: blankFrame_def detectMotion_cam_def getImageData_def buildMotionMap_def
          playing_cam_def newEngine_cam_def numeral_2_eq_2)
  ultimately show ?thesis
    using dm playingFallback_fields by (simp add: blankFrame_def)
qed

text \<open>Claim C8 as worded also covers \<open>index.tsx\<close>. There the video's ready state is not
  consulted: with no current frame the mask still has the two cells of the canvas.\<close>

theorem mask_not_empty_without_frame_counterexample:
  "readyState blankFrame < 2 \<and>
   detectMotion_cam playing_cam blankFrame =
     Inr (\<lparr>motionMap = [0, 0], width = 2, height = 1\<rparr>,
          playing_cam\<lparr>prevFrame := Some [0, 0, 0, 0,  0, 0, 0, 0]\<rparr>)"
  by (simp add: blankFrame_def detectMotion_cam_def getImageData_def buildMotionMap_def
        playing_cam_def newEngine_cam_def numeral_2_eq_2)

subsection \<open>Properties that every event preserves\<close>

text \<open>A property of the engine holds after any sequence of events when it holds at first
  and each part of a frame, the assignments of \<open>start\<close> and the pointer handler keep
  it.\<close>

lemma gameLoop_cam_preserves:
  assumes "Q e" and "gameLoop_cam e f = Inr e'"
    and pf: "\<And>e p. Q e \<Longrightarrow> Q (e\<lparr>prevFrame := p\<rparr>)"
    and sp: "\<And>e f. Q e \<Longrightarrow> Q (spawnStar_cam e f)"
    and vs: "\<And>e ms. Q e \<Longrightarrow> Q (visitStars_cam ms e)"
  shows "Q e'"
proof (cases rule: gameLoop_cam_cases [of e f])
  case idle
  then show ?thesis using assms(1,2) by simp
next
  case (abort err)
  then show ?thesis using assms(2) by simp
next
  case (run ms e1)
  have "Q e1" using detectMotion_cam_engine [OF run(2)] pf [OF assms(1)] by simp
  then have "Q (visitStars_cam ms (spawnStar_cam e1 f))" by (intro vs sp)
  then show ?thesis using run(3) assms(2) by simp
qed

lemma gameLoop_fb_preserves:
  assumes "Q e" and "gameLoop_fb e f = Inr e'"
    and pf: "\<And>e p. Q e \<Longrightarrow> Q (e\<lparr>prevFrame := p\<rparr>)"
    and sp: "\<And>e f. Q e \<Longrightarrow> Q (spawnStar_fb e f)"
    and vs: "\<And>e ms. Q e \<Longrightarrow> Q (visitStars_fb ms e)"
  shows "Q e'"
proof (cases rule: gameLoop_fb_cases [of e f])
  case idle
  then show ?thesis using assms(1,2) by simp
next
  case (abort err)
  then show ?thesis using assms(2) by simp
next
  case (run ms e1)
  have "Q e1" using detectMotion_fb_engine [OF run(2)] pf [OF assms(1)] assms(1) by auto
  then have "Q (visitStars_fb ms (spawnStar_fb e1 f))" by (intro vs sp)
  then show ?thesis using run(3) assms(2) by simp
qed

lemma step_cam_preserves:
  assumes "Q e"
    and st: "\<And>e. Q e \<Longrightarrow> Q (started e)"
    and pf: "\<And>e p. Q e \<Longrightarrow> Q (e\<lparr>prevFrame := p\<rparr>)"
    and sp: "\<And>e f. Q e \<Longrightarrow> Q (spawnStar_cam e f)"
    and vs: "\<And>e ms. Q e \<Longrightarrow> Q (visitStars_cam ms e)"
  shows "Q (step_cam e ev)"
proof (cases ev)
  case (Click f)
  have "Q (started e)" using assms(1) by (rule st)
  then show ?thesis
    using Click gameLoop_cam_preserves [of Q "started e" f, OF _ _ pf sp vs]
    by (auto simp: start_cam_def Let_def split: sum.splits)
next
  case (Frame f)
  then show ?thesis
    using assms(1) gameLoop_cam_preserves [of Q e f, OF _ _ pf sp vs]
    by (auto simp: onFrame_cam_def split: sum.splits)
next
  case (Pointer px py)
  then show ?thesis using assms(1) by simp
qed

lemma step_fb_preserves:
  assumes "Q e"
    and st: "\<And>e. Q e \<Longrightarrow> Q (started e)"
    and pf: "\<And>e p. Q e \<Longrightarrow> Q (e\<lparr>prevFrame := p\<rparr>)"
    and sp: "\<And>e f. Q e \<Longrightarrow> Q (spawnStar_fb e f)"
    and vs: "\<And>e ms. Q e \<Longrightarrow> Q (visitStars_fb ms e)"
    and hi: "\<And>e px py. Q e \<Longrightarrow> Q (handleInteraction e px py)"
  shows "Q (step_fb e ev)"
proof (cases ev)
  case (Click f)
  have "Q (started e)" using assms(1) by (rule st)
  then show ?thesis
    using Click assms(1) gameLoop_fb_preserves [of Q "started e" f, OF _ _ pf sp vs]
    by (auto simp: start_fb_def Let_def split: sum.splits)
next
  case (Frame f)
  then show ?thesis
    using assms(1) gameLoop_fb_preserves [of Q e f, OF _ _ pf sp vs]
    by (auto simp: onFrame_fb_def split: sum.splits)
next
  case (Pointer px py)
  then show ?thesis using assms(1) hi by simp
qed

lemma run_cam_preserves:
  assumes "Q e"
    and st: "\<And>e. Q e \<Longrightarrow> Q (started e)"
    and pf: "\<And>e p. Q e \<Longrightarrow> Q (e\<lparr>prevFrame := p\<rparr>)"
    and sp: "\<And>e f. Q e \<Longrightarrow> Q (spawnStar_cam e f)"
    and vs: "\<And>e ms. Q e \<Longrightarrow> Q (visitStars_cam ms e)"
  shows "Q (foldl step_cam e evs)"
  using assms(1)
proof (induction evs arbitrary: e)
  case Nil
  then show ?case by simp
next
  case (Cons ev evs)
  have "Q (step_cam e ev)" using Cons.prems st pf sp vs by (rule step_cam_preserves)
  then show ?case using Cons.IH by simp
qed

lemma run_fb_preserves:
  assumes "Q e"
    and st: "\<And>e. Q e \<Longrightarrow> Q (started e)"
    and pf: "\<And>e p. Q e \<Longrightarrow> Q (e\<lparr>prevFrame := p\<rparr>)"
    and sp: "\<And>e f. Q e \<Longrightarrow> Q (spawnStar_fb e f)"
    and vs: "\<And>e ms. Q e \<Longrightarrow> Q (visitStars_fb ms e)"
    and hi: "\<And>e px py. Q e \<Longrightarrow> Q (handleInteraction e px py)"
  shows "Q (foldl step_fb e evs)"
  using assms(1)
proof (induction evs arbitrary: e)
  case Nil
  then show ?case by simp
next
  case (Cons ev evs)
  have "Q (step_fb e ev)" using Cons.prems st pf sp vs hi by (rule step_fb_preserves)
  then show ?case using Cons.IH by simp
qed

subsection \<open>The cap on the stars\<close>

lemma visitStar_cam_active: "active (fst (visitStar_cam ms e star)) \<Longrightarrow> active star"
  by (cases "active star") (simp_all add: visitStar_cam_def)

lemma visitStar_fb_active: "active (fst (visitStar_fb ms e star)) \<Longrightarrow> active star"
  by (cases "active star") (simp_all add: visitStar_fb_def)

lemma visitAll_active_le:
  assumes "\<And>e star. active (fst (cb e star)) \<Longrightarrow> active star"
  shows "length (filter active (fst (visitAll cb e ss))) \<le> length (filter active ss)"
proof (induction ss arbitrary: e)
  case Nil
  then show ?case by simp
next
  case (Cons star ss)
  show ?case using Cons.IH [of "snd (cb e star)"] assms [of e star]
    by (auto simp del: visitAll.simps)
qed

lemma length_visitAll [simp]: "length (fst (visitAll cb e ss)) = length ss"
  by (induction ss arbitrary: e) (simp_all del: visitAll.simps(2))

lemma stars_visitStars_cam:
  "stars (visitStars_cam ms e) = filter active (fst (visitAll (visitStar_cam ms) e (stars e)))"
  by (simp add: visitStars_cam_def)

lemma stars_visitStars_fb:
  "stars (visitStars_fb ms e) = filter active (fst (visitAll (visitStar_fb ms) e (stars e)))"
  by (simp add: visitStars_fb_def)

lemma active_visitStars_cam:
  "length (filter active (stars (visitStars_cam ms e))) \<le> length (filter active (stars e))"
  using visitAll_active_le [of "visitStar_cam ms" e "stars e"] visitStar_cam_active
  by (simp add: stars_visitStars_cam)

lemma active_visitStars_fb:
  "length (filter active (stars (visitStars_fb ms e))) \<le> length (filter active (stars e))"
  using visitAll_active_le [of "visitStar_fb ms" e "stars e"] visitStar_fb_active
  by (simp add: stars_visitStars_fb)

lemma aliveCount_le: "aliveCount e \<le> length (filter active (stars e))"
proof -
  have "filter (\<lambda>s. active s \<and> \<not> collected s) (stars e)
          = filter (\<lambda>s. \<not> collected s) (filter active (stars e))"
    by (simp add: conj_commute)
  then show ?thesis
    by (simp add: aliveCount_def del: filter_filter)
qed

lemma cap_cam: "length (filter active (stars (foldl step_cam newEngine_cam evs))) \<le> 5"
proof (rule run_cam_preserves [where Q = "\<lambda>e. length (filter active (stars e)) \<le> 5"])
  show "length (filter active (stars newEngine_cam)) \<le> 5" by (simp add: newEngine_cam_def)
next
  fix e :: GameEngine and ms
  assume "length (filter active (stars e)) \<le> 5"
  then show "length (filter active (stars (visitStars_cam ms e))) \<le> 5"
    using active_visitStars_cam [of ms e] by simp
qed (simp_all add: started_def spawnStar_cam_def)

lemma cap_fb: "length (filter active (stars (foldl step_fb (init_fb p newEngine_fb) evs))) \<le> 6"
proof (rule run_fb_preserves [where Q = "\<lambda>e. length (filter active (stars e)) \<le> 6"])
  show "length (filter active (stars (init_fb p newEngine_fb))) \<le> 6"
    by (simp add: newEngine_fb_def init_fb_def setFallbackMode_def tryCamera_def
        split: option.splits)
next
  fix e :: FallbackEngine and ms
  assume "length (filter active (stars e)) \<le> 6"
  then show "length (filter active (stars (visitStars_fb ms e))) \<le> 6"
    using active_visitStars_fb [of ms e] by simp
qed (simp_all add: started_def spawnStar_fb_def handleInteraction_def)

text \<open>
  Claim C2. After any sequence of events, the stars that are alive and not yet collected
  number at most 5 in \<open>index.tsx\<close> and at most 6 in \<open>part_001\<close> (the stars with the
  \<open>active\<close> flag do, and those include the collected ones that still burst). When
  \<open>spawnStar\<close> adds a star, the count was below the cap, and it grows by one.
\<close>

theorem alive_stars_capped:
  "aliveCount (session_cam evs) \<le> 5 \<and>
   aliveCount (session_fb p evs) \<le> 6 \<and>
   (length (stars (spawnStar_cam c f)) \<noteq> length (stars c) \<longrightarrow>
      aliveCount c < 5 \<and> aliveCount (spawnStar_cam c f) = aliveCount c + 1) \<and>
   (length (stars (spawnStar_fb e f)) \<noteq> length (stars e) \<longrightarrow>
      aliveCount e < 6 \<and> aliveCount (spawnStar_fb e f) = aliveCount e + 1)"
proof (intro conjI impI)
  show "aliveCount (session_cam evs) \<le> 5"
    unfolding session_cam_def using aliveCount_le cap_cam by (rule order_trans)
  show "aliveCount (session_fb p evs) \<le> 6"
    unfolding session_fb_def using aliveCount_le cap_fb by (rule order_trans)
next
  assume "length (stars (spawnStar_cam c f)) \<noteq> length (stars c)"
  then have "length (filter active (stars c)) < 5" and
    "aliveCount (spawnStar_cam c f) = aliveCount c + 1"
    by (auto simp: spawnStar_cam_def aliveCount_def split: if_splits)
  then show "aliveCount c < 5" "aliveCount (spawnStar_cam c f) = aliveCount c + 1"
    using aliveCount_le [of c] by simp_all
next
  assume "length (stars (spawnStar_fb e f)) \<noteq> length (stars e)"
  then have "length (filter active (stars e)) < 6" and
    "aliveCount (spawnStar_fb e f) = aliveCount e + 1"
    by (auto simp: spawnStar_fb_def aliveCount_def split: if_splits)
  then show "aliveCount e < 6" "aliveCount (spawnStar_fb e f) = aliveCount e + 1"
    using aliveCount_le [of e] by simp_all
qed


theorem alive_stars_capped_witness:
  "length (stars (spawnStar_cam playing_cam blankFrame)) \<noteq> length (stars playing_cam) \<and>
   aliveCount playing_cam < 5 \<and>
   length (stars (spawnStar_fb playingFallback blankFrame)) \<noteq> length (stars playingFallback) \<and>
   aliveCount playingFallback < 6 \<and>
   aliveCount (session_cam [Click blankFrame, Frame blankFrame]) \<le> 5 \<and>
   aliveCount (session_fb noCamera [Click blankFrame, Frame blankFrame]) \<le> 6"
proof -
  have "length (stars (spawnStar_cam playing_cam blankFrame)) \<noteq> length (stars playing_cam)"
    by (simp add: spawnStar_cam_def playing_cam_def newEngine_cam_def blankFrame_def)
  moreover
  have "length (stars (spawnStar_fb playingFallback blankFrame)) \<noteq> length (stars playingFallback)"
    by (simp add: spawnStar_fb_def playingFallback_def newEngine_fb_def blankFrame_def)
  ultimately show ?thesis
    using alive_stars_capped
            [of "[Click blankFrame, Frame blankFrame]" noCamera playing_cam blankFrame
                playingFallback]
    by simp
qed

subsection \<open>Identifiers of the stars\<close>

lemma lastStarTime_visitStars_cam [simp]:
  "lastStarTime (visitStars_cam ms e) = lastStarTime e"
proof -
  have "\<And>e star. lastStarTime (snd (visitStar_cam ms e star)) = lastStarTime e"
    by (simp add: visitStar_cam_def Let_def)
  then show ?thesis
    by (simp add: visitStars_cam_def visitAll_keeps [where g = lastStarTime])
qed

lemma lastStarTime_visitStars_fb [simp]:
  "lastStarTime (visitStars_fb ms e) = lastStarTime e"
proof -
  have "\<And>e star. lastStarTime (snd (visitStar_fb ms e star)) = lastStarTime e"
    by (simp add: visitStar_fb_def Let_def)
  then show ?thesis
    by (simp add: visitStars_fb_def visitAll_keeps [where g = lastStarTime])
qed

lemma lastStarTime_step_cam: "lastStarTime e \<le> lastStarTime (step_cam e ev)"
  by (rule step_cam_preserves [where Q = "\<lambda>e'. lastStarTime e \<le> lastStarTime e'"])
     (simp_all add: started_def spawnStar_cam_def)

lemma lastStarTime_step_fb: "lastStarTime e \<le> lastStarTime (step_fb e ev)"
  by (rule step_fb_preserves [where Q = "\<lambda>e'. lastStarTime e \<le> lastStarTime e'"])
     (simp_all add: started_def spawnStar_fb_def handleInteraction_def)

lemma spawned_spawnStar_cam:
  "spawned e (spawnStar_cam e f) = [] \<or>
   (\<exists>s. spawned e (spawnStar_cam e f) = [s] \<and> star_id s = now f \<and>
        1500 < now f - lastStarTime e \<and> lastStarTime (spawnStar_cam e f) = star_id s)"
  by (simp add: spawned_def spawnStar_cam_def)

lemma spawned_spawnStar_fb:
  "spawned e (spawnStar_fb e f) = [] \<or>
   (\<exists>s. spawned e (spawnStar_fb e f) = [s] \<and> star_id s = now f \<and>
        1000 < now f - lastStarTime e \<and> lastStarTime (spawnStar_fb e f) = star_id s)"
  by (simp add: spawned_def spawnStar_fb_def)

lemma pushedIn_cam_cases:
  "pushedIn_cam e f = [] \<or>
   (\<exists>s. pushedIn_cam e f = [s] \<and> star_id s = now f \<and> 1500 < now f - lastStarTime e \<and>
        lastStarTime (onFrame_cam e f) = star_id s)"
proof (cases rule: gameLoop_cam_cases [of e f])
  case idle
  then show ?thesis by (simp add: pushedIn_cam_def)
next
  case (abort err)
  then show ?thesis by (simp add: pushedIn_cam_def)
next
  case (run ms e1)
  have e1: "lastStarTime e1 = lastStarTime e"
    using detectMotion_cam_engine [OF run(2)] by simp
  have "pushedIn_cam e f = spawned e1 (spawnStar_cam e1 f)"
    using run by (simp add: pushedIn_cam_def)
  moreover have "lastStarTime (onFrame_cam e f) = lastStarTime (spawnStar_cam e1 f)"
    using run by (simp add: onFrame_cam_def)
  ultimately show ?thesis
    using spawned_spawnStar_cam [of e1 f] e1 by auto
qed

lemma pushedIn_fb_cases:
  "pushedIn_fb e f = [] \<or>
   (\<exists>s. pushedIn_fb e f = [s] \<and> star_id s = now f \<and> 1000 < now f - lastStarTime e \<and>
        lastStarTime (onFrame_fb e f) = star_id s)"
proof (cases rule: gameLoop_fb_cases [of e f])
  case idle
  then show ?thesis by (simp add: pushedIn_fb_def)
next
  case (abort err)
  then show ?thesis by (simp add: pushedIn_fb_def)
next
  case (run ms e1)
  have e1: "lastStarTime e1 = lastStarTime e"
    using detectMotion_fb_engine [OF run(2)] by auto
  have "pushedIn_fb e f = spawned e1 (spawnStar_fb e1 f)"
    using run by (simp add: pushedIn_fb_def)
  moreover have "lastStarTime (onFrame_fb e f) = lastStarTime (spawnStar_fb e1 f)"
    using run by (simp add: onFrame_fb_def)
  ultimately show ?thesis
    using spawned_spawnStar_fb [of e1 f] e1 by auto
qed

lemma start_cam_onFrame: "start_cam e f = onFrame_cam (started e) f"
  by (simp add: start_cam_def onFrame_cam_def Let_def)

lemma start_fb_onFrame: "\<not> isPlaying e \<Longrightarrow> start_fb e f = onFrame_fb (started e) f"
  by (simp add: start_fb_def onFrame_fb_def Let_def)

lemma lastStarTime_started [simp]: "lastStarTime (started e) = lastStarTime e"
  by (simp add: started_def)

lemma spawnedBy_cam_cases:
  "spawnedBy_cam e ev = [] \<or>
   (\<exists>s. spawnedBy_cam e ev = [s] \<and> lastStarTime e < star_id s \<and>
        lastStarTime (step_cam e ev) = star_id s)"
proof (cases ev)
  case (Click f)
  then show ?thesis using pushedIn_cam_cases [of "started e" f]
    by (auto simp: start_cam_onFrame)
next
  case (Frame f)
  then show ?thesis using pushedIn_cam_cases [of e f] by auto
next
  case (Pointer px py)
  then show ?thesis by simp
qed

lemma spawnedBy_fb_cases:
  "spawnedBy_fb e ev = [] \<or>
   (\<exists>s. spawnedBy_fb e ev = [s] \<and> lastStarTime e < star_id s \<and>
        lastStarTime (step_fb e ev) = star_id s)"
proof (cases ev)
  case (Click f)
  then show ?thesis using pushedIn_fb_cases [of "started e" f]
    by (auto simp: start_fb_onFrame)
next
  case (Frame f)
  then show ?thesis using pushedIn_fb_cases [of e f] by auto
next
  case (Pointer px py)
  then show ?thesis by simp
qed

lemma spawnLog_cam_sorted:
  "sorted_wrt (<) (map star_id (spawnLog_cam e evs)) \<and>
   (\<forall>s \<in> set (spawnLog_cam e evs). lastStarTime e < star_id s)"
proof (induction evs arbitrary: e)
  case Nil
  then show ?case by simp
next
  case (Cons ev evs)
  let ?e' = "step_cam e ev"
  have ih: "sorted_wrt (<) (map star_id (spawnLog_cam ?e' evs))"
    and later: "\<forall>s \<in> set (spawnLog_cam ?e' evs). lastStarTime ?e' < star_id s"
    using Cons.IH [of ?e'] by simp_all
  have mono: "lastStarTime e \<le> lastStarTime ?e'" by (rule lastStarTime_step_cam)
  from spawnedBy_cam_cases [of e ev] show ?case
  proof
    assume "spawnedBy_cam e ev = []"
    then show ?thesis using ih later mono by fastforce
  next
    assume "\<exists>s. spawnedBy_cam e ev = [s] \<and> lastStarTime e < star_id s \<and>
        lastStarTime ?e' = star_id s"
    then obtain s where s: "spawnedBy_cam e ev = [s]" "lastStarTime e < star_id s"
      "lastStarTime ?e' = star_id s" by blast
    then show ?thesis using ih later mono
      by (fastforce simp: sorted_wrt_append)
  qed
qed

lemma spawnLog_fb_sorted:
  "sorted_wrt (<) (map star_id (spawnLog_fb e evs)) \<and>
   (\<forall>s \<in> set (spawnLog_fb e evs). lastStarTime e < star_id s)"
proof (induction evs arbitrary: e)
  case Nil
  then show ?case by simp
next
  case (Cons ev evs)
  let ?e' = "step_fb e ev"
  have ih: "sorted_wrt (<) (map star_id (spawnLog_fb ?e' evs))"
    and later: "\<forall>s \<in> set (spawnLog_fb ?e' evs). lastStarTime ?e' < star_id s"
    using Cons.IH [of ?e'] by simp_all
  have mono: "lastStarTime e \<le> lastStarTime ?e'" by (rule lastStarTime_step_fb)
  from spawnedBy_fb_cases [of e ev] show ?case
  proof
    assume "spawnedBy_fb e ev = []"
    then show ?thesis using ih later mono by fastforce
  next
    assume "\<exists>s. spawnedBy_fb e ev = [s] \<and> lastStarTime e < star_id s \<and>
        lastStarTime ?e' = star_id s"
    then obtain s where s: "spawnedBy_fb e ev = [s]" "lastStarTime e < star_id s"
      "lastStarTime ?e' = star_id s" by blast
    then show ?thesis using ih later mono
      by (fastforce simp: sorted_wrt_append)
  qed
qed


lemma star_id_visitStar_cam [simp]: "star_id (fst (visitStar_cam ms e star)) = star_id star"
  by (simp add: visitStar_cam_def Let_def)

lemma star_id_visitStar_fb [simp]: "star_id (fst (visitStar_fb ms e star)) = star_id star"
  by (simp add: visitStar_fb_def Let_def)

lemma map_visitAll:
  assumes "\<And>e star. g (fst (cb e star)) = g star"
  shows "map g (fst (visitAll cb e ss)) = map g ss"
  by (induction ss arbitrary: e) (simp_all add: assms del: visitAll.simps(2))

lemma ids_visitStars_cam:
  "star_id ` set (stars (visitStars_cam ms e)) \<subseteq> star_id ` set (stars e)"
proof -
  have "star_id ` set (stars (visitStars_cam ms e))
          \<subseteq> set (map star_id (fst (visitAll (visitStar_cam ms) e (stars e))))"
    by (auto simp: stars_visitStars_cam)
  then show ?thesis
    by (simp add: map_visitAll [where g = star_id])
qed

lemma ids_visitStars_fb:
  "star_id ` set (stars (visitStars_fb ms e)) \<subseteq> star_id ` set (stars e)"
proof -
  have "star_id ` set (stars (visitStars_fb ms e))
          \<subseteq> set (map star_id (fst (visitAll (visitStar_fb ms) e (stars e))))"
    by (auto simp: stars_visitStars_fb)
  then show ?thesis
    by (simp add: map_visitAll [where g = star_id])
qed

lemma stars_spawnStar_cam: "stars (spawnStar_cam e f) = stars e @ spawned e (spawnStar_cam e f)"
  by (simp add: spawned_def spawnStar_cam_def)

lemma stars_spawnStar_fb: "stars (spawnStar_fb e f) = stars e @ spawned e (spawnStar_fb e f)"
  by (simp add: spawned_def spawnStar_fb_def)

lemma ids_onFrame_cam:
  "star_id ` set (stars (onFrame_cam e f))
     \<subseteq> star_id ` set (stars e) \<union> star_id ` set (pushedIn_cam e f)"
proof (cases rule: gameLoop_cam_cases [of e f])
  case idle
  then show ?thesis by (simp add: onFrame_cam_def)
next
  case (abort err)
  then show ?thesis by (simp add: onFrame_cam_def)
next
  case (run ms e1)
  have e1: "stars e1 = stars e"
    using detectMotion_cam_engine [OF run(2)] by simp
  have "star_id ` set (stars (onFrame_cam e f)) \<subseteq> star_id ` set (stars (spawnStar_cam e1 f))"
    using run ids_visitStars_cam [of ms "spawnStar_cam e1 f"] by (simp add: onFrame_cam_def)
  moreover have "pushedIn_cam e f = spawned e1 (spawnStar_cam e1 f)"
    using run by (simp add: pushedIn_cam_def)
  ultimately show ?thesis
    using stars_spawnStar_cam [of e1 f] e1 by auto
qed

lemma ids_onFrame_fb:
  "star_id ` set (stars (onFrame_fb e f))
     \<subseteq> star_id ` set (stars e) \<union> star_id ` set (pushedIn_fb e f)"
proof (cases rule: gameLoop_fb_cases [of e f])
  case idle
  then show ?thesis by (simp add: onFrame_fb_def)
next
  case (abort err)
  then show ?thesis by (simp add: onFrame_fb_def)
next
  case (run ms e1)
  have e1: "stars e1 = stars e"
    using detectMotion_fb_engine [OF run(2)] by auto
  have "star_id ` set (stars (onFrame_fb e f)) \<subseteq> star_id ` set (stars (spawnStar_fb e1 f))"
    using run ids_visitStars_fb [of ms "spawnStar_fb e1 f"] by (simp add: onFrame_fb_def)
  moreover have "pushedIn_fb e f = spawned e1 (spawnStar_fb e1 f)"
    using run by (simp add: pushedIn_fb_def)
  ultimately show ?thesis
    using stars_spawnStar_fb [of e1 f] e1 by auto
qed

lemma stars_started [simp]: "stars (started e) = []"
  by (simp add: started_def)

lemma ids_step_cam:
  "star_id ` set (stars (step_cam e ev))
     \<subseteq> star_id ` set (stars e) \<union> star_id ` set (spawnedBy_cam e ev)"
proof (cases ev)
  case (Click f)
  then show ?thesis using ids_onFrame_cam [of "started e" f]
    by (auto simp: start_cam_onFrame)
next
  case (Frame f)
  then show ?thesis using ids_onFrame_cam [of e f] by simp
next
  case (Pointer px py)
  then show ?thesis by simp
qed

lemma ids_step_fb:
  "star_id ` set (stars (step_fb e ev))
     \<subseteq> star_id ` set (stars e) \<union> star_id ` set (spawnedBy_fb e ev)"
proof (cases ev)
  case (Click f)
  then show ?thesis using ids_onFrame_fb [of "started e" f]
    by (auto simp: start_fb_onFrame) (simp add: start_fb_def)
next
  case (Frame f)
  then show ?thesis using ids_onFrame_fb [of e f] by simp
next
  case (Pointer px py)
  then show ?thesis by (simp add: handleInteraction_def)
qed

lemma ids_run_cam:
  "star_id ` set (stars (foldl step_cam e evs))
     \<subseteq> star_id ` set (stars e) \<union> star_id ` set (spawnLog_cam e evs)"
proof (induction evs arbitrary: e)
  case Nil
  then show ?case by simp
next
  case (Cons ev evs)
  show ?case using Cons.IH [of "step_cam e ev"] ids_step_cam [of e ev]
    by (simp add: image_Un) blast
qed

lemma ids_run_fb:
  "star_id ` set (stars (foldl step_fb e evs))
     \<subseteq> star_id ` set (stars e) \<union> star_id ` set (spawnLog_fb e evs)"
proof (induction evs arbitrary: e)
  case Nil
  then show ?case by simp
next
  case (Cons ev evs)
  show ?case using Cons.IH [of "step_fb e ev"] ids_step_fb [of e ev]
    by (simp add: image_Un) blast
qed

lemma stars_init_fb [simp]: "stars (init_fb p newEngine_fb) = []"
  by (simp add: init_fb_def setFallbackMode_def tryCamera_def newEngine_fb_def
      split: option.splits)

text \<open>
  Claim C10. The identifiers of the stars pushed since the engine was constructed,
  listed in the order of their creation, are strictly increasing, hence pairwise distinct,
  and every star of the collection is one of them. A star pushed in a frame has the
  timestamp of that frame as its identifier, and more than the spawn interval (1500 ms in
  \<open>index.tsx\<close>, 1000 ms in \<open>part_001\<close>) has passed since the last spawn. Nothing is assumed
  about the clock.
\<close>

theorem star_ids_strictly_increasing:
  "sorted_wrt (<) (map star_id (spawnLog_cam newEngine_cam evs)) \<and>
   distinct (map star_id (spawnLog_cam newEngine_cam evs)) \<and>
   star_id ` set (stars (session_cam evs)) \<subseteq> star_id ` set (spawnLog_cam newEngine_cam evs) \<and>
   sorted_wrt (<) (map star_id (spawnLog_fb (init_fb p newEngine_fb) evs)) \<and>
   distinct (map star_id (spawnLog_fb (init_fb p newEngine_fb) evs)) \<and>
   star_id ` set (stars (session_fb p evs))
     \<subseteq> star_id ` set (spawnLog_fb (init_fb p newEngine_fb) evs) \<and>
   (\<forall>s \<in> set (pushedIn_cam c f). star_id s = now f \<and> 1500 < now f - lastStarTime c) \<and>
   (\<forall>s \<in> set (pushedIn_fb e f). star_id s = now f \<and> 1000 < now f - lastStarTime e)"
proof (intro conjI)
  show sc: "sorted_wrt (<) (map star_id (spawnLog_cam newEngine_cam evs))"
    using spawnLog_cam_sorted by blast
  show sf: "sorted_wrt (<) (map star_id (spawnLog_fb (init_fb p newEngine_fb) evs))"
    using spawnLog_fb_sorted by blast
  show "distinct (map star_id (spawnLog_cam newEngine_cam evs))"
    using sc by (simp add: strict_sorted_iff)
  show "distinct (map star_id (spawnLog_fb (init_fb p newEngine_fb) evs))"
    using sf by (simp add: strict_sorted_iff)
  show "star_id ` set (stars (session_cam evs)) \<subseteq> star_id ` set (spawnLog_cam newEngine_cam evs)"
    using ids_run_cam [of newEngine_cam evs] by (simp add: session_cam_def newEngine_cam_def)
  show "star_id ` set (stars (session_fb p evs))
     \<subseteq> star_id ` set (spawnLog_fb (init_fb p newEngine_fb) evs)"
    using ids_run_fb [of "init_fb p newEngine_fb" evs] by (simp add: session_fb_def)
  show "\<forall>s \<in> set (pushedIn_cam c f). star_id s = now f \<and> 1500 < now f - lastStarTime c"
    using pushedIn_cam_cases [of c f] by auto
  show "\<forall>s \<in> set (pushedIn_fb e f). star_id s = now f \<and> 1000 < now f - lastStarTime e"
    using pushedIn_fb_cases [of e f] by auto
qed

lemma sample_logs:
  "map star_id (spawnLog_cam newEngine_cam [Click blankFrame, Frame laterFrame]) = [5000, 7000]"
  "map star_id (spawnLog_fb (init_fb noCamera newEngine_fb)
                  [Click blankFrame, Pointer 0.5 0.5, Frame laterFrame]) = [5000, 7000]"
  "map star_id (pushedIn_cam playing_cam blankFrame) = [5000]"
  "map star_id (pushedIn_fb playingFallback blankFrame) = [5000]"
  by code_simp+

theorem star_ids_strictly_increasing_witness:
  "map star_id (pushedIn_cam playing_cam blankFrame) = [5000] \<and>
   map star_id (pushedIn_fb playingFallback blankFrame) = [5000] \<and>
   now blankFrame = 5000 \<and>
   map star_id (spawnLog_cam newEngine_cam [Click blankFrame, Frame laterFrame]) = [5000, 7000] \<and>
   star_id ` set (stars (session_cam [Click blankFrame, Frame laterFrame])) \<subseteq> {5000, 7000} \<and>
   map star_id (spawnLog_fb (init_fb noCamera newEngine_fb)
                  [Click blankFrame, Pointer 0.5 0.5, Frame laterFrame]) = [5000, 7000] \<and>
   star_id ` set (stars (session_fb noCamera [Click blankFrame, Pointer 0.5 0.5, Frame laterFrame]))
     \<subseteq> {5000, 7000}"
proof -
  note thm_cam = star_ids_strictly_increasing
      [of "[Click blankFrame, Frame laterFrame]" noCamera playing_cam blankFrame
          playingFallback]
  note thm_fb = star_ids_strictly_increasing
      [of "[Click blankFrame, Pointer 0.5 0.5, Frame laterFrame]" noCamera playing_cam
          blankFrame playingFallback]
  have two: "set [5000, 7000 :: int] = {5000, 7000}"
    by simp
  have log_cam: "star_id ` set (spawnLog_cam newEngine_cam [Click blankFrame, Frame laterFrame])
          = {5000, 7000}"
    using arg_cong [OF sample_logs(1), of set] unfolding set_map two .
  have log_fb: "star_id ` set (spawnLog_fb (init_fb noCamera newEngine_fb)
                  [Click blankFrame, Pointer 0.5 0.5, Frame laterFrame]) = {5000, 7000}"
    using arg_cong [OF sample_logs(2), of set] unfolding set_map two .
  have "star_id ` set (stars (session_cam [Click blankFrame, Frame laterFrame]))
          \<subseteq> star_id ` set (spawnLog_cam newEngine_cam [Click blankFrame, Frame laterFrame])"
    using thm_cam by (elim conjE)
  then have cam: "star_id ` set (stars (session_cam [Click blankFrame, Frame laterFrame]))
          \<subseteq> {5000, 7000}"
    unfolding log_cam .
  have "star_id ` set (stars (session_fb noCamera
            [Click blankFrame, Pointer 0.5 0.5, Frame laterFrame]))
          \<subseteq> star_id ` set (spawnLog_fb (init_fb noCamera newEngine_fb)
                  [Click blankFrame, Pointer 0.5 0.5, Frame laterFrame])"
    using thm_fb by (elim conjE)
  then have fb: "star_id ` set (stars (session_fb noCamera
            [Click blankFrame, Pointer 0.5 0.5, Frame laterFrame])) \<subseteq> {5000, 7000}"
    unfolding log_fb .
  have clock: "now blankFrame = 5000"
    by (simp add: blankFrame_def)
  show ?thesis
    using sample_logs cam fb clock by (intro conjI)
qed

subsection \<open>The score\<close>

lemma score_visitStar_cam:
  "score (snd (visitStar_cam ms e star)) =
     score e + (if \<not> collected star \<and> collected (fst (visitStar_cam ms e star)) then 10 else 0)"
  by (simp add: visitStar_cam_def Let_def)

lemma score_visitStar_fb:
  "score (snd (visitStar_fb ms e star)) =
     score e + (if \<not> collected star \<and> collected (fst (visitStar_fb ms e star)) then 10 else 0)"
  by (simp add: visitStar_fb_def Let_def)

lemma newlyCollected_Cons:
  "newlyCollected (s # ss) (s' # ss') =
     (if \<not> collected s \<and> collected s' then 1 else 0) + newlyCollected ss ss'"
  by (simp add: newlyCollected_def)

lemma visitAll_score:
  assumes "\<And>e star. score (snd (cb e star)) =
     score e + (if \<not> collected star \<and> collected (fst (cb e star)) then 10 else 0)"
  shows "score (snd (visitAll cb e ss)) =
     score e + 10 * int (newlyCollected ss (fst (visitAll cb e ss)))"
proof (induction ss arbitrary: e)
  case Nil
  then show ?case by (simp add: newlyCollected_def)
next
  case (Cons star ss)
  show ?case
    using Cons.IH [of "snd (cb e star)"] assms [of e star]
    by (simp add: newlyCollected_Cons del: visitAll.simps(2))
qed

lemma score_visitStars_cam:
  "score (visitStars_cam ms e) =
     score e + 10 * int (newlyCollected (stars e) (fst (visitAll (visitStar_cam ms) e (stars e))))"
  using visitAll_score [of "visitStar_cam ms" e "stars e"] score_visitStar_cam
  by (simp add: visitStars_cam_def)

lemma score_visitStars_fb:
  "score (visitStars_fb ms e) =
     score e + 10 * int (newlyCollected (stars e) (fst (visitAll (visitStar_fb ms) e (stars e))))"
  using visitAll_score [of "visitStar_fb ms" e "stars e"] score_visitStar_fb
  by (simp add: visitStars_fb_def)

lemma score_onFrame_cam: "score (onFrame_cam e f) = score e + 10 * int (collectedIn_cam e f)"
proof (cases rule: gameLoop_cam_cases [of e f])
  case idle
  then show ?thesis by (simp add: onFrame_cam_def collectedIn_cam_def)
next
  case (abort err)
  then show ?thesis by (simp add: onFrame_cam_def collectedIn_cam_def)
next
  case (run ms e1)
  have "score e1 = score e"
    using detectMotion_cam_engine [OF run(2)] by simp
  then have "score (spawnStar_cam e1 f) = score e"
    by (simp add: spawnStar_cam_def)
  then show ?thesis
    using run by (simp add: onFrame_cam_def collectedIn_cam_def score_visitStars_cam Let_def)
qed

lemma score_onFrame_fb: "score (onFrame_fb e f) = score e + 10 * int (collectedIn_fb e f)"
proof (cases rule: gameLoop_fb_cases [of e f])
  case idle
  then show ?thesis by (simp add: onFrame_fb_def collectedIn_fb_def)
next
  case (abort err)
  then show ?thesis by (simp add: onFrame_fb_def collectedIn_fb_def)
next
  case (run ms e1)
  have "score e1 = score e"
    using detectMotion_fb_engine [OF run(2)] by auto
  then have "score (spawnStar_fb e1 f) = score e"
    by (simp add: spawnStar_fb_def)
  then show ?thesis
    using run by (simp add: onFrame_fb_def collectedIn_fb_def score_visitStars_fb Let_def)
qed

lemma score_started [simp]: "score (started e) = 0"
  by (simp add: started_def)

lemma score_run_cam:
  "score e = 10 * int n \<Longrightarrow> score (foldl step_cam e evs) = 10 * int (tally_cam n e evs)"
proof (induction evs arbitrary: n e)
  case Nil
  then show ?case by simp
next
  case (Cons ev evs)
  show ?case
  proof (cases ev)
    case (Click f)
    have "score (start_cam e f) = 10 * int (collectedIn_cam (started e) f)"
      by (simp add: start_cam_onFrame score_onFrame_cam)
    then show ?thesis using Click Cons.IH by simp
  next
    case (Frame f)
    have "score (onFrame_cam e f) = 10 * int (n + collectedIn_cam e f)"
      using Cons.prems by (simp add: score_onFrame_cam)
    then show ?thesis using Frame Cons.IH by simp
  next
    case (Pointer px py)
    then show ?thesis using Cons by simp
  qed
qed

lemma score_run_fb:
  "score e = 10 * int n \<Longrightarrow> score (foldl step_fb e evs) = 10 * int (tally_fb n e evs)"
proof (induction evs arbitrary: n e)
  case Nil
  then show ?case by simp
next
  case (Cons ev evs)
  show ?case
  proof (cases ev)
    case (Click f)
    have "score (start_fb e f) =
            10 * int (if isPlaying e then n else collectedIn_fb (started e) f)"
      using Cons.prems by (simp add: start_fb_onFrame score_onFrame_fb) (simp add: start_fb_def)
    then show ?thesis using Click Cons.IH by simp
  next
    case (Frame f)
    have "score (onFrame_fb e f) = 10 * int (n + collectedIn_fb e f)"
      using Cons.prems by (simp add: score_onFrame_fb)
    then show ?thesis using Frame Cons.IH by simp
  next
    case (Pointer px py)
    have "score (handleInteraction e px py) = 10 * int n"
      using Cons.prems by (simp add: handleInteraction_def)
    then show ?thesis using Pointer Cons.IH by simp
  qed
qed

lemma score_init_fb [simp]: "score (init_fb p newEngine_fb) = 0"
  by (simp add: init_fb_def setFallbackMode_def tryCamera_def newEngine_fb_def
      split: option.splits)

text \<open>
  Claim C1. In both engines the callback awards exactly 10 points to a star that is alive
  and not yet collected when a hit is detected against it, and marks it collected; without
  a hit it awards nothing; and for a star that is already collected it leaves the score
  alone, whatever the pointer and the motion mask are. Hence, after any sequence of events,
  the score is 10 times the number of stars collected since the session started.
\<close>

theorem score_counts_collections:
  "(active star \<and> \<not> collected star \<longrightarrow>
      (if 14 < motionHits_cam ms star
       then collected (fst (visitStar_cam ms c star)) \<and>
            score (snd (visitStar_cam ms c star)) = score c + 10
       else \<not> collected (fst (visitStar_cam ms c star)) \<and>
            score (snd (visitStar_cam ms c star)) = score c)) \<and>
   (collected star \<longrightarrow> score (snd (visitStar_cam ms c star)) = score c) \<and>
   (active star \<and> \<not> collected star \<longrightarrow>
      (if cameraCheck ms e star (pointerCheck e star)
       then collected (fst (visitStar_fb ms e star)) \<and>
            score (snd (visitStar_fb ms e star)) = score e + 10
       else \<not> collected (fst (visitStar_fb ms e star)) \<and>
            score (snd (visitStar_fb ms e star)) = score e)) \<and>
   (collected star \<longrightarrow> score (snd (visitStar_fb ms e star)) = score e) \<and>
   score (session_cam evs) = 10 * int (tally_cam 0 newEngine_cam evs) \<and>
   score (session_fb p evs) = 10 * int (tally_fb 0 (init_fb p newEngine_fb) evs)"
proof (intro conjI impI)
  assume a: "active star \<and> \<not> collected star"
  then show "if 14 < motionHits_cam ms star
       then collected (fst (visitStar_cam ms c star)) \<and>
            score (snd (visitStar_cam ms c star)) = score c + 10
       else \<not> collected (fst (visitStar_cam ms c star)) \<and>
            score (snd (visitStar_cam ms c star)) = score c"
    by (simp add: score_visitStar_cam collected_visitStar_cam motionHits_cam_def)
  from a show "if cameraCheck ms e star (pointerCheck e star)
       then collected (fst (visitStar_fb ms e star)) \<and>
            score (snd (visitStar_fb ms e star)) = score e + 10
       else \<not> collected (fst (visitStar_fb ms e star)) \<and>
            score (snd (visitStar_fb ms e star)) = score e"
    by (simp add: score_visitStar_fb collected_visitStar_fb cameraCheck_iff)
next
  assume "collected star"
  then show "score (snd (visitStar_cam ms c star)) = score c"
    "score (snd (visitStar_fb ms e star)) = score e"
    by (simp_all add: score_visitStar_cam score_visitStar_fb)
next
  show "score (session_cam evs) = 10 * int (tally_cam 0 newEngine_cam evs)"
    unfolding session_cam_def by (rule score_run_cam) (simp add: newEngine_cam_def)
  show "score (session_fb p evs) = 10 * int (tally_fb 0 (init_fb p newEngine_fb) evs)"
    unfolding session_fb_def by (rule score_run_fb) simp
qed

text \<open>The star spawned by the click is collected in the next frame, by motion in
  \<open>index.tsx\<close> and by the pointer in \<open>part_001\<close>; it is hit again in the frame after
  that, and the tally stays at one.\<close>

lemma sample_tallies:
  "tally_cam 0 newEngine_cam [Click calmFrame, Frame movedFrame, Frame movedFrame] = 1"
  "tally_fb 0 (init_fb noCamera newEngine_fb)
     [Click blankFrame, Pointer 0.5 0.5, Frame laterFrame, Frame laterFrame] = 1"
  by code_simp+

lemma collectedStar_flags: "collected (nearStar\<lparr>collected := True\<rparr>)"
  by simp

lemma nearStar_flags: "active nearStar" "\<not> collected nearStar"
  by (simp_all add: nearStar_def)

lemma rowMask_motionHits: "motionHits_cam rowMask centreStar = 5"
  by (simp add: motionHits_cam_def rowMask_grid rowMask_hits)

theorem score_counts_collections_witness:
  "active nearStar \<and> \<not> collected nearStar \<and>
   cameraCheck rowMask touched nearStar (pointerCheck touched nearStar) \<and>
   collected (fst (visitStar_fb rowMask touched nearStar)) \<and>
   score (snd (visitStar_fb rowMask touched nearStar)) = score touched + 10 \<and>
   collected (nearStar\<lparr>collected := True\<rparr>) \<and>
   score (snd (visitStar_fb rowMask touched (nearStar\<lparr>collected := True\<rparr>))) = score touched \<and>
   score (snd (visitStar_cam rowMask playing_cam (nearStar\<lparr>collected := True\<rparr>)))
     = score playing_cam \<and>
   active centreStar \<and> \<not> collected centreStar \<and> \<not> 14 < motionHits_cam rowMask centreStar \<and>
   score (snd (visitStar_cam rowMask playing_cam centreStar)) = score playing_cam \<and>
   score (session_cam [Click calmFrame, Frame movedFrame, Frame movedFrame]) = 10 \<and>
   score (session_fb noCamera
            [Click blankFrame, Pointer 0.5 0.5, Frame laterFrame, Frame laterFrame]) = 10"
proof -
  have hit: "cameraCheck rowMask touched nearStar (pointerCheck touched nearStar)"
    using touched_near by (simp add: cameraCheck_iff)
  note fresh = score_counts_collections [of nearStar rowMask playing_cam touched "[]" noCamera]
  note again = score_counts_collections
      [of "nearStar\<lparr>collected := True\<rparr>" rowMask playing_cam touched "[]" noCamera]
  note miss = score_counts_collections [of centreStar rowMask playing_cam touched "[]" noCamera]
  note cam = score_counts_collections
      [of nearStar rowMask playing_cam touched
          "[Click calmFrame, Frame movedFrame, Frame movedFrame]" noCamera]
  note fb = score_counts_collections
      [of nearStar rowMask playing_cam touched
          "[Click blankFrame, Pointer 0.5 0.5, Frame laterFrame, Frame laterFrame]" noCamera]
  have "collected (fst (visitStar_fb rowMask touched nearStar))"
    "score (snd (visitStar_fb rowMask touched nearStar)) = score touched + 10"
    using fresh hit nearStar_flags by simp_all
  moreover have
    "score (snd (visitStar_fb rowMask touched (nearStar\<lparr>collected := True\<rparr>))) = score touched"
    "score (snd (visitStar_cam rowMask playing_cam (nearStar\<lparr>collected := True\<rparr>)))
       = score playing_cam"
    using again collectedStar_flags by simp_all
  moreover have "score (snd (visitStar_cam rowMask playing_cam centreStar)) = score playing_cam"
    using miss centreStar_flags by (simp add: rowMask_motionHits)
  moreover have "score (session_cam [Click calmFrame, Frame movedFrame, Frame movedFrame])
      = 10 * int (tally_cam 0 newEngine_cam [Click calmFrame, Frame movedFrame, Frame movedFrame])"
    using cam by (elim conjE)
  then have "score (session_cam [Click calmFrame, Frame movedFrame, Frame movedFrame]) = 10"
    unfolding sample_tallies by simp
  moreover have "score (session_fb noCamera
            [Click blankFrame, Pointer 0.5 0.5, Frame laterFrame, Frame laterFrame])
      = 10 * int (tally_fb 0 (init_fb noCamera newEngine_fb)
            [Click blankFrame, Pointer 0.5 0.5, Frame laterFrame, Frame laterFrame])"
    using fb by (elim conjE)
  then have "score (session_fb noCamera
            [Click blankFrame, Pointer 0.5 0.5, Frame laterFrame, Frame laterFrame]) = 10"
    unfolding sample_tallies by simp
  ultimately show ?thesis
    using hit nearStar_flags centreStar_flags collectedStar_flags
    by (simp add: rowMask_motionHits)
qed

subsection \<open>Bursting and expiry\<close>

lemma mem_visitAll:
  "s \<in> set ss \<Longrightarrow> \<exists>e'. fst (cb e' s) \<in> set (fst (visitAll cb e ss))"
proof (induction ss arbitrary: e)
  case Nil
  then show ?case by simp
next
  case (Cons a ss)
  show ?case
  proof (cases "s = a")
    case True
    then show ?thesis by (auto simp del: visitAll.simps)
  next
    case False
    then have "s \<in> set ss" using Cons.prems by simp
    from Cons.IH [OF this, of "snd (cb e a)"] show ?thesis
      by (auto simp del: visitAll.simps)
  qed
qed

lemma visitAll_mem:
  "s' \<in> set (fst (visitAll cb e ss)) \<Longrightarrow> \<exists>e' s. s \<in> set ss \<and> s' = fst (cb e' s)"
proof (induction ss arbitrary: e)
  case Nil
  then show ?case by simp
next
  case (Cons a ss)
  from Cons.prems have "s' = fst (cb e a) \<or> s' \<in> set (fst (visitAll cb (snd (cb e a)) ss))"
    by (simp del: visitAll.simps)
  then show ?case
  proof
    assume "s' = fst (cb e a)"
    then show ?thesis by auto
  next
    assume "s' \<in> set (fst (visitAll cb (snd (cb e a)) ss))"
    from Cons.IH [OF this] show ?thesis by auto
  qed
qed


lemma wellFormed_prevFrame: "wellFormed e \<Longrightarrow> wellFormed (e\<lparr>prevFrame := p\<rparr>)"
  by (simp add: wellFormed_def)



lemma wellFormed_inj: "wellFormed e \<Longrightarrow> inj_on star_id (set (stars e))"
  by (simp add: wellFormed_def strict_sorted_iff distinct_map)


lemma drawnStars_mem:
  "star \<in> set ss \<Longrightarrow> active star \<Longrightarrow> \<exists>e'. fst (cb e' star) \<in> set (drawnStars cb e ss)"
proof (induction ss arbitrary: e)
  case Nil
  then show ?case by simp
next
  case (Cons a ss)
  show ?case
  proof (cases "star = a")
    case True
    then show ?thesis using Cons.prems(2) by auto
  next
    case False
    then have "star \<in> set ss" using Cons.prems(1) by simp
    from Cons.IH [OF this Cons.prems(2), of "snd (cb e a)"] show ?thesis by auto
  qed
qed





text \<open>The sums of fifteen frames of growth from the scale 1, as the doubles of the
  source give them: 1.2, 1.4, 1.5999999999999999, and so on to 3.0000000000000004 after
  ten frames and 4.000000000000001 after fifteen.\<close>

lemma fround_fifth:
  "fround 0.2 = 3602879701896397 / 18014398509481984"
  "fround (1 / 5) = 3602879701896397 / 18014398509481984"
  by code_simp+

lemma growth_from_one:
  "dadd 1 (3602879701896397 / 18014398509481984) = 5404319552844595 / 4503599627370496"
  "dadd (5404319552844595 / 4503599627370496) (3602879701896397 / 18014398509481984) =
     3152519739159347 / 2251799813685248"
  "dadd (3152519739159347 / 2251799813685248) (3602879701896397 / 18014398509481984) =
     7205759403792793 / 4503599627370496"
  "dadd (7205759403792793 / 4503599627370496) (3602879701896397 / 18014398509481984) =
     2026619832316723 / 1125899906842624"
  "dadd (2026619832316723 / 1125899906842624) (3602879701896397 / 18014398509481984) =
     9007199254740991 / 4503599627370496"
  "dadd (9007199254740991 / 4503599627370496) (3602879701896397 / 18014398509481984) =
     4953959590107545 / 2251799813685248"
  "dadd (4953959590107545 / 2251799813685248) (3602879701896397 / 18014398509481984) =
     5404319552844595 / 2251799813685248"
  "dadd (5404319552844595 / 2251799813685248) (3602879701896397 / 18014398509481984) =
     5854679515581645 / 2251799813685248"
  "dadd (5854679515581645 / 2251799813685248) (3602879701896397 / 18014398509481984) =
     6305039478318695 / 2251799813685248"
  "dadd (6305039478318695 / 2251799813685248) (3602879701896397 / 18014398509481984) =
     6755399441055745 / 2251799813685248"
  "dadd (6755399441055745 / 2251799813685248) (3602879701896397 / 18014398509481984) =
     7205759403792795 / 2251799813685248"
  "dadd (7205759403792795 / 2251799813685248) (3602879701896397 / 18014398509481984) =
     7656119366529845 / 2251799813685248"
  "dadd (7656119366529845 / 2251799813685248) (3602879701896397 / 18014398509481984) =
     8106479329266895 / 2251799813685248"
  "dadd (8106479329266895 / 2251799813685248) (3602879701896397 / 18014398509481984) =
     8556839292003945 / 2251799813685248"
  "dadd (8556839292003945 / 2251799813685248) (3602879701896397 / 18014398509481984) =
     4503599627370497 / 1125899906842624"
  by code_simp+

lemma growth_replay:
  "survives burst_cam 3 9 caughtStar" "\<not> survives burst_cam 3 10 caughtStar"
  "survives burst_fb 4 14 caughtStar" "\<not> survives burst_fb 4 15 caughtStar"
  "star_scale (grown burst_fb 9 caughtStar) = star_scale burstingStar"
  "3 < star_scale (burst_cam burstingStar)" "\<not> 4 < star_scale (burst_fb burstingStar)"
  "survives burst_fb 4 5 burstingStar" "\<not> survives burst_fb 4 6 burstingStar"
  by (simp_all add: eval_nat_numeral burst_cam_def burst_fb_def caughtStar_def burstingStar_def
        fround_fifth growth_from_one)

lemma visitStar_cam_collected:
  "active star \<Longrightarrow> collected star \<Longrightarrow>
   visitStar_cam ms e star =
     (if 3 < star_scale (burst_cam star) then (burst_cam star)\<lparr>active := False\<rparr> else burst_cam star, e)"
  by (simp add: visitStar_cam_def Let_def burst_cam_def)

lemma wellFormed_spawnStar_cam: "wellFormed e \<Longrightarrow> wellFormed (spawnStar_cam e f)"
  by (fastforce simp: wellFormed_def spawnStar_cam_def sorted_wrt_append)



lemma burst_frame_cam:
  assumes wf: "wellFormed e" and playing: "isPlaying e"
    and run: "gameLoop_cam e f = Inr e'"
    and mem: "star \<in> set (stars e)" and coll: "collected star"
  shows "if 3 < star_scale (burst_cam star)
         then star_id star \<notin> star_id ` set (stars e')
         else burst_cam star \<in> set (stars e')"
proof (cases rule: gameLoop_cam_cases [of e f])
  case idle
  then show ?thesis using playing by simp
next
  case (abort err)
  then show ?thesis using run by simp
next
  case (run ms e1)
  let ?e2 = "spawnStar_cam e1 f"
  let ?vs = "fst (visitAll (visitStar_cam ms) ?e2 (stars ?e2))"
  have "wellFormed e1" and st1: "stars e1 = stars e"
    using detectMotion_cam_engine [OF run(2)] wf by (auto simp: wellFormed_prevFrame)
  then have wf2: "wellFormed ?e2"
    by (simp add: wellFormed_spawnStar_cam)
  have mem2: "star \<in> set (stars ?e2)"
    using mem by (simp add: st1 stars_spawnStar_cam)
  have act: "active star" using wf mem by (simp add: wellFormed_def)
  have e': "stars e' = filter active ?vs"
    using run(3) assms(3) by (simp add: stars_visitStars_cam)
  show ?thesis
  proof (cases "3 < star_scale (burst_cam star)")
    case True
    have "star_id star \<notin> star_id ` set (stars e')"
    proof
      assume "star_id star \<in> star_id ` set (stars e')"
      then obtain s' where s': "s' \<in> set ?vs" "active s'" "star_id s' = star_id star"
        by (auto simp: e')
      from visitAll_mem [OF s'(1)] obtain e'' s where
        s: "s \<in> set (stars ?e2)" "s' = fst (visitStar_cam ms e'' s)" by blast
      have "star_id s = star_id star" using s(2) s'(3) by simp
      then have "s = star"
        using wellFormed_inj [OF wf2] s(1) mem2 by (simp add: inj_on_def)
      then have "\<not> active s'"
        using s(2) True by (simp add: visitStar_cam_collected [OF act coll])
      then show False using s'(2) by simp
    qed
    then show ?thesis using True by simp
  next
    case False
    from mem_visitAll [OF mem2, of "visitStar_cam ms" ?e2] obtain e'' where
      "fst (visitStar_cam ms e'' star) \<in> set ?vs" by blast
    then have "burst_cam star \<in> set ?vs"
      using False by (simp add: visitStar_cam_collected [OF act coll])
    moreover have "active (burst_cam star)" using act by (simp add: burst_cam_def)
    ultimately show ?thesis using False by (simp add: e')
  qed
qed




lemma isPlaying_visitStars_cam [simp]: "isPlaying (visitStars_cam ms e) = isPlaying e"
proof -
  have "\<And>e star. isPlaying (snd (visitStar_cam ms e star)) = isPlaying e"
    by (simp add: visitStar_cam_def Let_def)
  then show ?thesis
    by (simp add: visitStars_cam_def visitAll_keeps [where g = isPlaying])
qed



lemma drawnIn_cam_run:
  "isPlaying e \<Longrightarrow> detectMotion_cam e f = Inr (ms, e1) \<Longrightarrow>
   drawnIn_cam e f =
     drawnStars (visitStar_cam ms) (spawnStar_cam e1 f) (stars (spawnStar_cam e1 f))"
  by (simp add: drawnIn_cam_def Let_def)

lemma drawn_frame_cam:
  assumes wf: "wellFormed e" and playing: "isPlaying e"
    and run: "gameLoop_cam e f = Inr e'"
    and mem: "star \<in> set (stars e)" and coll: "collected star"
  shows "(if 3 < star_scale (burst_cam star)
          then (burst_cam star)\<lparr>active := False\<rparr> else burst_cam star) \<in> set (drawnIn_cam e f)"
proof (cases rule: gameLoop_cam_cases [of e f])
  case idle
  then show ?thesis using playing by simp
next
  case (abort err)
  then show ?thesis using run by simp
next
  case (run ms e1)
  let ?e2 = "spawnStar_cam e1 f"
  have st1: "stars e1 = stars e"
    using detectMotion_cam_engine [OF run(2)] by simp
  have mem2: "star \<in> set (stars ?e2)"
    using mem by (simp add: st1 stars_spawnStar_cam)
  have act: "active star" using wf mem by (simp add: wellFormed_def)
  from drawnStars_mem [OF mem2 act, of "visitStar_cam ms" ?e2] obtain e'' where
    "fst (visitStar_cam ms e'' star) \<in> set (drawnStars (visitStar_cam ms) ?e2 (stars ?e2))"
    by blast
  then show ?thesis
    by (simp add: drawnIn_cam_run [OF run(1,2)] visitStar_cam_collected [OF act coll])
qed













lemma isPlaying_visitStars_fb [simp]: "isPlaying (visitStars_fb ms e) = isPlaying e"
proof -
  have "\<And>e star. isPlaying (snd (visitStar_fb ms e star)) = isPlaying e"
    by (simp add: visitStar_fb_def Let_def)
  then show ?thesis
    by (simp add: visitStars_fb_def visitAll_keeps [where g = isPlaying])
qed










text \<open>The star at scale 2.8000000000000003. One more frame takes it to
  3.0000000000000004: \<open>index.tsx\<close> draws it a last time and drops it, where the exact sum 3
  would have kept it for another frame. \<open>part_001\<close> keeps it for five frames and drops
  it in the sixth, at scale 4.000000000000001.\<close>

lemma burstingStar_flags: "active burstingStar" "collected burstingStar"
  "star_id burstingStar = 2000" "0 \<le> star_scale burstingStar" "star_scale burstingStar \<le> 8"
  by (simp_all add: burstingStar_def)

lemma bursting_engines:
  "wellFormed bursting_cam" "isPlaying bursting_cam" "burstingStar \<in> set (stars bursting_cam)"
  "wellFormed bursting_fb" "isPlaying bursting_fb" "burstingStar \<in> set (stars bursting_fb)"
  "\<not> cameraActive bursting_fb"
  by (simp_all add: wellFormed_def bursting_cam_def bursting_fb_def playing_cam_def
        playingFallback_def newEngine_cam_def newEngine_fb_def burstingStar_def)

lemma gameLoop_fb_fallback: "\<not> cameraActive e \<Longrightarrow> gameLoop_fb e f = Inr (onFrame_fb e f)"
proof (cases rule: gameLoop_fb_cases [of e f])
  case idle
  then show ?thesis by (simp add: onFrame_fb_def)
next
  case (abort err)
  assume "\<not> cameraActive e"
  then show ?thesis using abort(2) by (simp add: detectMotion_fb_def)
next
  case (run ms e1)
  then show ?thesis by (simp add: onFrame_fb_def)
qed

lemma framesRun_fb_fallback: "\<not> cameraActive e \<Longrightarrow> framesRun_fb e fs"
proof (induction fs arbitrary: e)
  case Nil
  then show ?case by simp
next
  case (Cons f fs)
  have "\<not> cameraActive (onFrame_fb e f)"
    using Cons.prems cameraActive_step_fb [of e "Frame f"] by simp
  then have "framesRun_fb (onFrame_fb e f) fs" by (rule Cons.IH)
  then show ?case by (simp add: gameLoop_fb_fallback [OF Cons.prems])
qed

lemma bursting_sample:
  "detectMotion_cam bursting_cam blankFrame =
     Inr (\<lparr>motionMap = [0, 0], width = 2, height = 1\<rparr>,
          bursting_cam\<lparr>prevFrame := Some (imageData blankFrame)\<rparr>)"
  by code_simp

lemma bursting_frames:
  "gameLoop_cam bursting_cam blankFrame = Inr (onFrame_cam bursting_cam blankFrame)"
  "framesRun_cam bursting_cam [blankFrame]"
  "gameLoop_fb bursting_fb blankFrame = Inr (onFrame_fb bursting_fb blankFrame)"
  "framesRun_fb bursting_fb (replicate 5 blankFrame)"
  "framesRun_fb bursting_fb (replicate 6 blankFrame)"
proof -
  show run: "gameLoop_cam bursting_cam blankFrame = Inr (onFrame_cam bursting_cam blankFrame)"
    by (simp add: onFrame_cam_def gameLoop_cam_run [OF bursting_engines(2) bursting_sample])
  show "framesRun_cam bursting_cam [blankFrame]"
    by (simp add: run)
  show "gameLoop_fb bursting_fb blankFrame = Inr (onFrame_fb bursting_fb blankFrame)"
    using bursting_engines(7) by (rule gameLoop_fb_fallback)
  show "framesRun_fb bursting_fb (replicate 5 blankFrame)"
    "framesRun_fb bursting_fb (replicate 6 blankFrame)"
    using bursting_engines(7) by (rule framesRun_fb_fallback)+
qed


text \<open>Claim C7 as worded has the star removed and never rendered again on the frame where
  its scale crosses the ceiling. In that frame the callback still draws the star, after
  it has cleared the \<open>active\<close> flag: \<open>index.tsx\<close> draws the star of the sample inactive, at
  the scale 3.0000000000000004 beyond its ceiling 3, and drops it only then. The same
  sample shows the rounding: the exact sum \<open>2.8 + 0.2\<close> does not exceed 3.\<close>

theorem expired_star_drawn_once_more_counterexample:
  "burstingStar \<in> set (stars bursting_cam) \<and> collected burstingStar \<and>
   gameLoop_cam bursting_cam blankFrame = Inr (onFrame_cam bursting_cam blankFrame) \<and>
   star_id burstingStar \<notin> star_id ` set (stars (onFrame_cam bursting_cam blankFrame)) \<and>
   (burst_cam burstingStar)\<lparr>active := False\<rparr> \<in> set (drawnIn_cam bursting_cam blankFrame) \<and>
   3 < star_scale ((burst_cam burstingStar)\<lparr>active := False\<rparr>) \<and>
   star_scale ((burst_cam burstingStar)\<lparr>active := False\<rparr>) = 6755399441055745 / 2251799813685248"
proof -
  have cross: "3 < star_scale (burst_cam burstingStar)"
    by (rule growth_replay)
  have "(if 3 < star_scale (burst_cam burstingStar)
          then (burst_cam burstingStar)\<lparr>active := False\<rparr> else burst_cam burstingStar)
        \<in> set (drawnIn_cam bursting_cam blankFrame)"
    using bursting_engines(1,2) bursting_frames(1) bursting_engines(3) burstingStar_flags(2)
    by (rule drawn_frame_cam)
  then have drawn:
    "(burst_cam burstingStar)\<lparr>active := False\<rparr> \<in> set (drawnIn_cam bursting_cam blankFrame)"
    using cross by (simp only: if_True simp_thms)
  have "if 3 < star_scale (burst_cam burstingStar)
         then star_id burstingStar \<notin> star_id ` set (stars (onFrame_cam bursting_cam blankFrame))
         else burst_cam burstingStar \<in> set (stars (onFrame_cam bursting_cam blankFrame))"
    using bursting_engines(1,2) bursting_frames(1) bursting_engines(3) burstingStar_flags(2)
    by (rule burst_frame_cam)
  then have gone:
    "star_id burstingStar \<notin> star_id ` set (stars (onFrame_cam bursting_cam blankFrame))"
    using cross by (simp only: if_True simp_thms)
  have scale: "star_scale ((burst_cam burstingStar)\<lparr>active := False\<rparr>) =
      6755399441055745 / 2251799813685248"
    by (simp add: burst_cam_def burstingStar_def fround_fifth growth_from_one)
  have "3 < star_scale ((burst_cam burstingStar)\<lparr>active := False\<rparr>)"
    using cross by simp
  then show ?thesis
    using bursting_engines(3) burstingStar_flags(2) bursting_frames(1) gone drawn scale
    by (intro conjI) (assumption | elim conjE)+
qed


subsection \<open>The pointer is consumed\<close>

lemma pointer_cleared:
  "\<not> collected star \<Longrightarrow> collected (fst (visitStar_fb ms e star)) \<Longrightarrow>
   lastTouchX (snd (visitStar_fb ms e star)) = - 1 \<and> lastTouchY (snd (visitStar_fb ms e star)) = - 1"
  by (cases "active star") (auto simp: visitStar_fb_def Let_def split: if_splits)

lemma pointerCollects_collects:
  "pointerCollects e star \<Longrightarrow> collected (fst (visitStar_fb ms e star))"
  by (simp add: pointerCollects_def collected_visitStar_fb)

lemma pointerCollects_clears:
  "pointerCollects e star \<Longrightarrow> lastTouchX (snd (visitStar_fb ms e star)) = - 1"
  using pointer_cleared [of star ms e] pointerCollects_collects [of e star ms]
  by (simp add: pointerCollects_def)

lemma no_pointer_no_hit: "lastTouchX e = - 1 \<Longrightarrow> \<not> pointerCheck e star"
  by (simp add: pointerCheck_def)

lemma cleared_stays_visitStar:
  "lastTouchX e = - 1 \<Longrightarrow> lastTouchX (snd (visitStar_fb ms e star)) = - 1"
  by (simp add: visitStar_fb_def Let_def)

lemma cleared_stays_visitAll:
  "lastTouchX e = - 1 \<Longrightarrow> lastTouchX (snd (visitAll (visitStar_fb ms) e ss)) = - 1"
  by (induction ss arbitrary: e) (simp_all add: cleared_stays_visitStar del: visitAll.simps(2))

lemma cleared_no_collections:
  "lastTouchX e = - 1 \<Longrightarrow> pointerCollections ms e ss = 0"
  by (induction ss arbitrary: e)
     (simp_all add: cleared_stays_visitStar pointerCollects_def no_pointer_no_hit)

lemma pointerCollections_le:
  "pointerCollections ms e ss \<le> 1 \<and>
   (pointerCollections ms e ss = 1 \<longrightarrow> lastTouchX (snd (visitAll (visitStar_fb ms) e ss)) = - 1)"
proof (induction ss arbitrary: e)
  case Nil
  then show ?case by simp
next
  case (Cons star ss)
  let ?e1 = "snd (visitStar_fb ms e star)"
  show ?case
  proof (cases "pointerCollects e star")
    case True
    then have off: "lastTouchX ?e1 = - 1" by (rule pointerCollects_clears)
    then show ?thesis
      using True cleared_no_collections [OF off, of ms ss] cleared_stays_visitAll [OF off, of ms ss]
      by (simp del: visitAll.simps(2))
  next
    case False
    then show ?thesis using Cons.IH [of ?e1] by (simp del: visitAll.simps(2))
  qed
qed

lemma lastTouchX_visitStars_fb:
  "lastTouchX (visitStars_fb ms e) = lastTouchX (snd (visitAll (visitStar_fb ms) e (stars e)))"
  by (simp add: visitStars_fb_def)

lemma lastTouchX_spawnStar_fb [simp]: "lastTouchX (spawnStar_fb e f) = lastTouchX e"
  by (simp add: spawnStar_fb_def)

lemma pointerCollectionsIn_le:
  "pointerCollectionsIn e f \<le> 1 \<and>
   (pointerCollectionsIn e f = 1 \<longrightarrow> lastTouchX (onFrame_fb e f) = - 1) \<and>
   (lastTouchX e = - 1 \<longrightarrow> pointerCollectionsIn e f = 0 \<and> lastTouchX (onFrame_fb e f) = - 1)"
proof (cases rule: gameLoop_fb_cases [of e f])
  case idle
  then show ?thesis by (simp add: pointerCollectionsIn_def onFrame_fb_def)
next
  case (abort err)
  then show ?thesis by (simp add: pointerCollectionsIn_def onFrame_fb_def)
next
  case (run ms e1)
  let ?e2 = "spawnStar_fb e1 f"
  have x: "lastTouchX e1 = lastTouchX e"
    using detectMotion_fb_engine [OF run(2)] by auto
  have n: "pointerCollectionsIn e f = pointerCollections ms ?e2 (stars ?e2)"
    using run by (simp add: pointerCollectionsIn_def Let_def)
  have l: "lastTouchX (onFrame_fb e f) = lastTouchX (snd (visitAll (visitStar_fb ms) ?e2 (stars ?e2)))"
    using run by (simp add: onFrame_fb_def lastTouchX_visitStars_fb)
  show ?thesis
    using pointerCollections_le [of ms ?e2 "stars ?e2"]
      cleared_no_collections [of ?e2 ms "stars ?e2"]
      cleared_stays_visitAll [of ?e2 ms "stars ?e2"]
    by (simp add: n l x)
qed

lemma cleared_over:
  "lastTouchX e = - 1 \<Longrightarrow>
   pointerCollectionsOver e fs = 0 \<and> lastTouchX (foldl onFrame_fb e fs) = - 1"
proof (induction fs arbitrary: e)
  case Nil
  then show ?case by simp
next
  case (Cons f fs)
  have "pointerCollectionsIn e f = 0" "lastTouchX (onFrame_fb e f) = - 1"
    using pointerCollectionsIn_le [of e f] Cons.prems by simp_all
  then show ?case using Cons.IH [of "onFrame_fb e f"] by simp
qed

lemma pointerCollectionsOver_le: "pointerCollectionsOver e fs \<le> 1"
proof (induction fs arbitrary: e)
  case Nil
  then show ?case by simp
next
  case (Cons f fs)
  show ?case
  proof (cases "pointerCollectionsIn e f = 1")
    case True
    then have "lastTouchX (onFrame_fb e f) = - 1"
      using pointerCollectionsIn_le [of e f] by simp
    then have "pointerCollectionsOver (onFrame_fb e f) fs = 0"
      using cleared_over by blast
    then show ?thesis using True by simp
  next
    case False
    then have "pointerCollectionsIn e f = 0"
      using pointerCollectionsIn_le [of e f] by linarith
    then show ?thesis using Cons.IH [of "onFrame_fb e f"] by simp
  qed
qed

lemma collects_iff_pointer:
  "\<not> cameraActive e \<Longrightarrow>
   (\<not> collected star \<and> collected (fst (visitStar_fb ms e star))) = pointerCollects e star"
proof (cases "active star \<and> \<not> collected star")
  case True
  assume "\<not> cameraActive e"
  then show ?thesis using True by (simp add: collected_visitStar_fb pointerCollects_def)
next
  case False
  then show ?thesis by (auto simp: pointerCollects_def visitStar_fb_def)
qed

lemma newlyCollected_pointer:
  "\<not> cameraActive e \<Longrightarrow>
   newlyCollected ss (fst (visitAll (visitStar_fb ms) e ss)) = pointerCollections ms e ss"
proof (induction ss arbitrary: e)
  case Nil
  then show ?case by (simp add: newlyCollected_def)
next
  case (Cons star ss)
  have "\<not> cameraActive (snd (visitStar_fb ms e star))" using Cons.prems by simp
  from Cons.IH [OF this] show ?case
    using collects_iff_pointer [OF Cons.prems, of star ms]
    by (simp add: newlyCollected_Cons del: visitAll.simps(2))
qed

lemma collectedIn_pointer:
  "\<not> cameraActive e \<Longrightarrow> collectedIn_fb e f = pointerCollectionsIn e f"
proof (cases rule: gameLoop_fb_cases [of e f])
  case idle
  then show ?thesis by (simp add: collectedIn_fb_def pointerCollectionsIn_def)
next
  case (abort err)
  then show ?thesis by (simp add: collectedIn_fb_def pointerCollectionsIn_def)
next
  case (run ms e1)
  assume "\<not> cameraActive e"
  then have "\<not> cameraActive (spawnStar_fb e1 f)"
    using detectMotion_fb_engine [OF run(2)] by auto
  then show ?thesis
    using run by (simp add: collectedIn_fb_def pointerCollectionsIn_def Let_def
        newlyCollected_pointer)
qed

lemma tally_frames:
  "\<not> cameraActive e \<Longrightarrow> tally_fb n e (map Frame fs) = n + pointerCollectionsOver e fs"
proof (induction fs arbitrary: n e)
  case Nil
  then show ?case by simp
next
  case (Cons f fs)
  have "\<not> cameraActive (onFrame_fb e f)"
    using Cons.prems cameraActive_step_fb [of e "Frame f"] by simp
  from Cons.IH [OF this] show ?case
    using Cons.prems by (simp add: collectedIn_pointer)
qed

text \<open>
  Claim C4. In \<open>part_001\<close>, a call of the callback that collects a star leaves the stored
  pointer cleared (both coordinates are \<open>-1\<close>). With the pointer cleared the pointer test
  hits no star, and the pointer stays cleared over any number of frames without a pointer
  event, in which the pointer then collects nothing. So over any list of frames without a
  pointer event, at most one star is collected on a pointer hit; with the camera off, that
  is at most one collection in all.
\<close>

theorem pointer_is_one_shot:
  "(\<not> collected star \<and> collected (fst (visitStar_fb ms e star)) \<longrightarrow>
      lastTouchX (snd (visitStar_fb ms e star)) = - 1 \<and>
      lastTouchY (snd (visitStar_fb ms e star)) = - 1) \<and>
   (lastTouchX e = - 1 \<longrightarrow>
      \<not> pointerCheck e star \<and> lastTouchX (foldl onFrame_fb e fs) = - 1 \<and>
      pointerCollectionsOver e fs = 0) \<and>
   pointerCollectionsOver e fs \<le> 1 \<and>
   (\<not> cameraActive e \<longrightarrow> tally_fb 0 e (map Frame fs) \<le> 1)"
proof (intro conjI impI)
  assume "\<not> collected star \<and> collected (fst (visitStar_fb ms e star))"
  then show "lastTouchX (snd (visitStar_fb ms e star)) = - 1"
    "lastTouchY (snd (visitStar_fb ms e star)) = - 1"
    using pointer_cleared [of star ms e] by simp_all
next
  assume off: "lastTouchX e = - 1"
  then show "\<not> pointerCheck e star" by (rule no_pointer_no_hit)
  show "lastTouchX (foldl onFrame_fb e fs) = - 1" "pointerCollectionsOver e fs = 0"
    using cleared_over [OF off, of fs] by simp_all
next
  show le: "pointerCollectionsOver e fs \<le> 1" by (rule pointerCollectionsOver_le)
  assume "\<not> cameraActive e"
  then show "tally_fb 0 e (map Frame fs) \<le> 1"
    using le by (simp add: tally_frames)
qed

text \<open>Two stars lie within reach of the pointer at \<open>(0.5, 0.5)\<close>; over two frames one of
  them is collected.\<close>

lemma crowded_sample:
  "pointerCheck crowded nearStar" "pointerCheck crowded secondStar"
  "pointerCollectionsOver crowded [blankFrame, blankFrame] = 1"
  "tally_fb 0 crowded [Frame blankFrame, Frame blankFrame] = 1"
  "pointerCollectionsOver playingWithCamera [blankFrame, blankFrame] = 0"
  "fst (visitStar_fb rowMask touched nearStar) =
     nearStar\<lparr>collected := True, star_scale := 5404319552844595 / 4503599627370496\<rparr>"
  "tally_fb 0 crowdedFallback (map Frame [blankFrame, blankFrame]) = 1"
  by code_simp+


theorem pointer_is_one_shot_witness:
  "\<not> collected nearStar \<and> collected (fst (visitStar_fb rowMask touched nearStar)) \<and>
   lastTouchX (snd (visitStar_fb rowMask touched nearStar)) = - 1 \<and>
   lastTouchY (snd (visitStar_fb rowMask touched nearStar)) = - 1 \<and>
   lastTouchX playingWithCamera = - 1 \<and> \<not> pointerCheck playingWithCamera nearStar \<and>
   pointerCollectionsOver playingWithCamera [blankFrame, blankFrame] = 0 \<and>
   pointerCheck crowded nearStar \<and> pointerCheck crowded secondStar \<and>
   pointerCollectionsOver crowded [blankFrame, blankFrame] = 1 \<and>
   \<not> cameraActive crowdedFallback \<and>
   tally_fb 0 crowdedFallback (map Frame [blankFrame, blankFrame]) = 1"
proof -
  have got: "collected (fst (visitStar_fb rowMask touched nearStar))"
    by (simp add: collected_visitStar_fb nearStar_flags touched_near)
  have off: "\<not> cameraActive crowdedFallback"
    by (simp add: crowdedFallback_def)
  note hit = pointer_is_one_shot [of nearStar rowMask touched "[blankFrame, blankFrame]"]
  note idle = pointer_is_one_shot
      [of nearStar rowMask playingWithCamera "[blankFrame, blankFrame]"]
  note many = pointer_is_one_shot [of nearStar rowMask crowded "[blankFrame, blankFrame]"]
  note fallback = pointer_is_one_shot
      [of nearStar rowMask crowdedFallback "[blankFrame, blankFrame]"]
  have "lastTouchX (snd (visitStar_fb rowMask touched nearStar)) = - 1"
    "lastTouchY (snd (visitStar_fb rowMask touched nearStar)) = - 1"
    using hit got nearStar_flags by simp_all
  moreover have "\<not> pointerCheck playingWithCamera nearStar"
    "pointerCollectionsOver playingWithCamera [blankFrame, blankFrame] = 0"
    using idle playingWithCamera_fields by simp_all
  moreover have "pointerCollectionsOver crowded [blankFrame, blankFrame] \<le> 1"
    using many by (elim conjE)
  moreover have "tally_fb 0 crowdedFallback (map Frame [blankFrame, blankFrame]) \<le> 1"
    using fallback off by (elim conjE) simp
  ultimately show ?thesis
    using got off nearStar_flags playingWithCamera_fields crowded_sample
    by (intro conjI)
qed

end
